theory Spec2Isabelle
  imports Main
begin

section \<open>Thrown values and the error classes of errors.ts\<close>

text \<open>
  A JavaScript \<^verbatim>\<open>throw\<close> (or a promise rejection) carries an arbitrary value. The code
  only ever asks two things of it: whether it is an \<^verbatim>\<open>Error\<close> instance
  (\<^verbatim>\<open>err instanceof Error\<close>) and, if so, what its \<^verbatim>\<open>message\<close> is; anything else is
  turned into a string with \<^verbatim>\<open>String(err)\<close>. An \<^verbatim>\<open>Error\<close> is modelled by its
  \<^verbatim>\<open>name\<close> and \<^verbatim>\<open>message\<close>, any other thrown value by its \<^verbatim>\<open>String(...)\<close> image.
\<close>

datatype thrown = JsError (err_name: string) (message: string) | NonError string

definition WASMInitError :: "string \<Rightarrow> thrown" where
  "WASMInitError msg = JsError ''WASMInitError'' msg"

definition FontLoadError :: "string \<Rightarrow> thrown" where
  "FontLoadError msg = JsError ''FontLoadError'' msg"

definition HTMLParseError :: "string \<Rightarrow> thrown" where
  "HTMLParseError msg = JsError ''HTMLParseError'' msg"

definition SVGGenerationError :: "string \<Rightarrow> thrown" where
  "SVGGenerationError msg = JsError ''SVGGenerationError'' msg"

text \<open>\<^verbatim>\<open>String.prototype.includes\<close>: the pattern occurs somewhere in the string.\<close>

fun starts_with :: "string \<Rightarrow> string \<Rightarrow> bool" where
  "starts_with s [] = True"
| "starts_with [] (p # ps) = False"
| "starts_with (c # cs) (p # ps) = (c = p \<and> starts_with cs ps)"

fun str_includes :: "string \<Rightarrow> string \<Rightarrow> bool" where
  "str_includes [] pat = starts_with [] pat"
| "str_includes (c # cs) pat = (starts_with (c # cs) pat \<or> str_includes cs pat)"

section \<open>The engine singleton (core/yoga.ts)\<close>

text \<open>
  JavaScript runs one job at a time to completion. \<^verbatim>\<open>ensureYogaInitialized\<close> contains no
  \<^verbatim>\<open>await\<close> of its own, so a call is one atomic step; the only suspension point is
  \<^verbatim>\<open>await initYoga(...)\<close> inside the immediately invoked async function, whose remainder
  (the rest of \<^verbatim>\<open>try\<close>, the \<^verbatim>\<open>catch\<close> and the \<^verbatim>\<open>finally\<close>) runs as one later job once
  the promise of \<^verbatim>\<open>initYoga\<close> has settled. \<^verbatim>\<open>initYoga\<close> is typed to return a promise, so
  the suspension always happens and the assignment to \<^verbatim>\<open>state.initializing\<close> precedes
  the continuation.

  The module-level \<^verbatim>\<open>state\<close> object is the record \<open>yoga_state\<close>; the runtime around it
  holds the promises created by the async function (a promise is its position in the
  list) and counts the calls of the two external initialisers.
\<close>

datatype pstatus = Pending | Fulfilled | Rejected thrown

record yoga_state =
  yoga :: "nat option"
  initialized :: bool
  initializing :: "nat option"

record runtime =
  state :: yoga_state
  promises :: "pstatus list"
  initYoga_calls :: nat
  initSatori_calls :: nat

definition state0 :: yoga_state where
  "state0 = \<lparr>yoga = None, initialized = False, initializing = None\<rparr>"

definition runtime0 :: runtime where
  "runtime0 = \<lparr>state = state0, promises = [], initYoga_calls = 0, initSatori_calls = 0\<rparr>"

text \<open>
  \<^verbatim>\<open>ensureYogaInitialized\<close> is an async function, so every call returns a promise of its
  own, a fresh one each time. What the model records for a call is what that fresh
  promise is resolved with: with nothing, on the fast path, so that there is nothing to
  wait for (\<open>Ready\<close>); or, on the other two paths, with the promise stored in
  \<^verbatim>\<open>state.initializing\<close>, whose outcome the caller's own promise then takes over
  (\<open>Waits p\<close>). The callers' own promises are told apart by the order of the calls.
\<close>

datatype handle = Ready | Waits nat

definition ensureYogaInitialized :: "runtime \<Rightarrow> runtime \<times> handle" where
  "ensureYogaInitialized w =
     (if initialized (state w) then (w, Ready)
      else case initializing (state w) of
        Some p \<Rightarrow> (w, Waits p)
      | None \<Rightarrow>
          (let p = length (promises w) in
           (w\<lparr>state := (state w)\<lparr>initializing := Some p\<rparr>,
              promises := promises w @ [Pending],
              initYoga_calls := initYoga_calls w + 1\<rparr>,
            Waits p)))"

text \<open>
  How the awaited \<^verbatim>\<open>initYoga\<close> promise settles, and whether the synchronous
  \<^verbatim>\<open>initSatori(yoga)\<close> that follows a resolution throws.
\<close>

datatype init_outcome = YogaResolved nat "thrown option" | YogaRejected thrown

definition is_already_initialized :: "thrown \<Rightarrow> bool" where
  "is_already_initialized err =
     (case err of JsError n msg \<Rightarrow> str_includes msg ''Already initialized'' | NonError s \<Rightarrow> False)"

text \<open>The \<^verbatim>\<open>catch\<close> block followed by \<^verbatim>\<open>finally\<close>, for the attempt with promise \<open>p\<close>.\<close>

definition catch_finally :: "nat \<Rightarrow> thrown \<Rightarrow> runtime \<Rightarrow> runtime" where
  "catch_finally p err w =
     (if is_already_initialized err
      then w\<lparr>state := (state w)\<lparr>initialized := True, initializing := None\<rparr>,
             promises := (promises w)[p := Fulfilled]\<rparr>
      else w\<lparr>state := (state w)\<lparr>initializing := None\<rparr>,
             promises := (promises w)[p := Rejected err]\<rparr>)"

text \<open>The job that resumes the async function of attempt \<open>p\<close> after the \<^verbatim>\<open>await\<close>.\<close>

definition resume :: "nat \<Rightarrow> init_outcome \<Rightarrow> runtime \<Rightarrow> runtime" where
  "resume p out w =
     (case out of
        YogaResolved y None \<Rightarrow>
          w\<lparr>state := \<lparr>yoga = Some y, initialized = True, initializing = None\<rparr>,
            promises := (promises w)[p := Fulfilled],
            initSatori_calls := initSatori_calls w + 1\<rparr>
      | YogaResolved y (Some err) \<Rightarrow>
          catch_finally p err (w\<lparr>initSatori_calls := initSatori_calls w + 1\<rparr>)
      | YogaRejected err \<Rightarrow> catch_finally p err w)"

text \<open>
  Events of a process lifetime: somebody calls \<^verbatim>\<open>ensureYogaInitialized\<close>, or the
  \<^verbatim>\<open>initYoga\<close> promise awaited by attempt \<open>p\<close> settles. An attempt can only be resumed
  while its promise is pending; any other \<open>Settle\<close> is not an event of the program and
  changes nothing. The handles given to the callers are collected in call order.
\<close>

datatype event = Call | Settle nat init_outcome

definition step :: "runtime \<times> handle list \<Rightarrow> event \<Rightarrow> runtime \<times> handle list" where
  "step s ev =
     (case ev of
        Call \<Rightarrow> (let (w', h) = ensureYogaInitialized (fst s) in (w', snd s @ [h]))
      | Settle p out \<Rightarrow>
          (if p < length (promises (fst s)) \<and> promises (fst s) ! p = Pending
           then (resume p out (fst s), snd s) else s))"

definition run :: "event list \<Rightarrow> runtime \<times> handle list" where
  "run evs = foldl step (runtime0, []) evs"

text \<open>
  What a caller observes in runtime \<open>w\<close> on the promise it was given, when that promise
  was resolved as \<open>h\<close> says.
\<close>

definition observed :: "runtime \<Rightarrow> handle \<Rightarrow> pstatus" where
  "observed w h = (case h of Ready \<Rightarrow> Fulfilled | Waits p \<Rightarrow> promises w ! p)"

text \<open>
  How the promise of an attempt settles, read off the \<^verbatim>\<open>try\<close>, \<^verbatim>\<open>catch\<close> and \<^verbatim>\<open>throw err\<close>
  of the async function: it is fulfilled when nothing is thrown or when what is thrown
  is the "Already initialized" signal, and rejected with what was thrown otherwise.
\<close>

definition settles_with :: "init_outcome \<Rightarrow> pstatus" where
  "settles_with out =
     (case out of
        YogaResolved y None \<Rightarrow> Fulfilled
      | YogaResolved y (Some err) \<Rightarrow>
          (if is_already_initialized err then Fulfilled else Rejected err)
      | YogaRejected err \<Rightarrow>
          (if is_already_initialized err then Fulfilled else Rejected err))"


text \<open>
  Proof devices for the singleton: the state after one or more concurrent first calls,
  and the invariant of every reachable runtime (at most one attempt is in flight, its
  promise is the only pending one, and the engine is not ready while it is in flight).
\<close>

definition attempt1 :: runtime where
  "attempt1 = \<lparr>state = \<lparr>yoga = None, initialized = False, initializing = Some 0\<rparr>,
      promises = [Pending], initYoga_calls = 1, initSatori_calls = 0\<rparr>"

definition inv :: "runtime \<Rightarrow> bool" where
  "inv w \<longleftrightarrow>
     (\<forall>q < length (promises w). promises w ! q = Pending \<longrightarrow> initializing (state w) = Some q) \<and>
     (\<forall>p. initializing (state w) = Some p \<longrightarrow>
        p < length (promises w) \<and> promises w ! p = Pending \<and> \<not> initialized (state w))"

section \<open>Data model (types.ts)\<close>

datatype emoji_type = Twemoji | Openmoji | Blobmoji | Noto | Fluent | FluentFlat

datatype font_style = Normal | Italic

record font =
  name :: string
  data :: "nat list"
  weight :: int
  style :: font_style

record og_options =
  width :: "int option"
  height :: "int option"
  fonts :: "font list option"
  emoji :: "emoji_type option"
  debug :: "bool option"

record batch_options = og_options +
  concurrency :: "int option"
  failFast :: "bool option"

record stream_options = og_options +
  prefetch :: "int option"

text \<open>\<^verbatim>\<open>OGResult<string>\<close>: the discriminated union, with its \<^verbatim>\<open>ok\<close> tag.\<close>

datatype og_result = OGSuccess string | OGError thrown

fun ok :: "og_result \<Rightarrow> bool" where
  "ok (OGSuccess v) = True"
| "ok (OGError e) = False"

text \<open>
  \<^verbatim>\<open>element: React.ReactNode | string\<close>: a string is HTML to be parsed, anything else is
  used as it is; \<^verbatim>\<open>null\<close> is a legal \<^verbatim>\<open>ReactNode\<close>. The node type \<open>'el\<close> is opaque.
  \<^verbatim>\<open>BatchItem\<close> and \<^verbatim>\<open>StreamItem\<close> have the same two fields, and so have
  \<^verbatim>\<open>BatchResult\<close> and \<^verbatim>\<open>StreamResult\<close>; each pair is one record here.
\<close>

datatype 'el source = Html string | Node 'el | NullNode

record 'el batch_item =
  element :: "'el source"
  options :: "og_options option"

type_synonym 'el stream_item = "'el batch_item"

record batch_result =
  index :: int
  result :: og_result

type_synonym stream_result = batch_result

section \<open>External collaborators\<close>

text \<open>
  The generators call four things that are not theirs: the readiness check of the engine
  singleton (what matters to them is how the awaited promise settles: \<open>None\<close> when it
  resolves, \<open>Some err\<close> when it rejects with \<open>err\<close>), the HTML parser (which resolves to a
  node or to \<^verbatim>\<open>null\<close>, or rejects), the font loader and the \<^verbatim>\<open>satori\<close> engine. They are
  parameters of the model.
\<close>

record satori_options =
  sat_width :: int
  sat_height :: int
  sat_fonts :: "font list"
  loadAdditionalAsset :: "emoji_type option"

record 'el env =
  yoga_ready :: "thrown option"
  parseHtml :: "string \<Rightarrow> thrown + 'el option"
  loadGoogleFont :: "string \<Rightarrow> int \<Rightarrow> thrown + nat list"
  satori :: "'el \<Rightarrow> satori_options \<Rightarrow> thrown + string"

text \<open>The nullish coalescing operator \<^verbatim>\<open>a ?? b\<close>.\<close>

definition nullish :: "'a option \<Rightarrow> 'a \<Rightarrow> 'a" where
  "nullish a b = (case a of Some v \<Rightarrow> v | None \<Rightarrow> b)"

text \<open>\<^verbatim>\<open>err instanceof Error ? err : new SVGGenerationError(String(err))\<close>\<close>

definition as_error :: "thrown \<Rightarrow> thrown" where
  "as_error err = (case err of JsError n msg \<Rightarrow> err | NonError s \<Rightarrow> SVGGenerationError s)"

text \<open>
  \<^verbatim>\<open>typeof element === "string" ? await parseHtml(element) : element\<close>\<close>

definition resolve_element :: "'el env \<Rightarrow> 'el source \<Rightarrow> thrown + 'el option" where
  "resolve_element e src =
     (case src of Html s \<Rightarrow> parseHtml e s | Node el \<Rightarrow> Inr (Some el) | NullNode \<Rightarrow> Inr None)"

text \<open>
  \<^verbatim>\<open>fonts?.length ? fonts : [{name: "Bitter", data: await loadGoogleFont(...), ...}]\<close>:
  the fonts given if there are any, else the default font, whose load may reject.
\<close>

definition bitter :: "nat list \<Rightarrow> font" where
  "bitter d = \<lparr>name = ''Bitter'', data = d, weight = 500, style = Normal\<rparr>"

definition fonts_or_default :: "'el env \<Rightarrow> font list option \<Rightarrow> thrown + font list" where
  "fonts_or_default e fs =
     (case fs of
        Some (f # rest) \<Rightarrow> Inr (f # rest)
      | _ \<Rightarrow> (case loadGoogleFont e ''Bitter'' 600 of
                Inl err \<Rightarrow> Inl err
              | Inr d \<Rightarrow> Inr [bitter d]))"

section \<open>Single render (generators/single.ts)\<close>

text \<open>The body of the \<^verbatim>\<open>try\<close> block: \<open>Inl\<close> is a value thrown inside it.\<close>

definition generateOG_try :: "'el env \<Rightarrow> 'el source \<Rightarrow> og_options \<Rightarrow> thrown + og_result" where
  "generateOG_try e src opts =
     (case yoga_ready e of
        Some err \<Rightarrow> Inl err
      | None \<Rightarrow>
         (case resolve_element e src of
            Inl err \<Rightarrow> Inl err
          | Inr None \<Rightarrow> Inr (OGError (SVGGenerationError ''Failed to parse HTML element''))
          | Inr (Some reactElement) \<Rightarrow>
             (case fonts_or_default e (fonts opts) of
                Inl err \<Rightarrow> Inl err
              | Inr fs \<Rightarrow>
                 (case satori e reactElement
                         \<lparr>sat_width = nullish (width opts) 1200,
                          sat_height = nullish (height opts) 630,
                          sat_fonts = fs,
                          loadAdditionalAsset = emoji opts\<rparr> of
                    Inl err \<Rightarrow> Inl err
                  | Inr svg \<Rightarrow> Inr (OGSuccess svg)))))"

text \<open>The whole function: whatever the \<^verbatim>\<open>try\<close> block throws is caught and wrapped.\<close>

definition generateOG :: "'el env \<Rightarrow> 'el source \<Rightarrow> og_options \<Rightarrow> og_result" where
  "generateOG e src opts =
     (case generateOG_try e src opts of
        Inr r \<Rightarrow> r
      | Inl err \<Rightarrow> OGError (as_error err))"

section \<open>Rendering one item of a batch or of a stream\<close>

text \<open>
  The async callback of \<^verbatim>\<open>chunk.map\<close> in \<^verbatim>\<open>generateOGBatch\<close> and the helper
  \<^verbatim>\<open>generateItem\<close> of \<^verbatim>\<open>OGStream\<close> have the same body: a \<^verbatim>\<open>try\<close> that parses, merges the
  item's options over the defaults and calls the engine, and a \<^verbatim>\<open>catch\<close> that wraps
  whatever was thrown. The index is attached by the callers below.
\<close>

text \<open>Optional chaining on the item's own options: \<^verbatim>\<open>item.options?.field\<close>.\<close>

definition item_option :: "(og_options \<Rightarrow> 'a option) \<Rightarrow> 'el batch_item \<Rightarrow> 'a option" where
  "item_option field item = (case options item of None \<Rightarrow> None | Some opts \<Rightarrow> field opts)"

definition generateItem_try ::
  "'el env \<Rightarrow> 'z og_options_scheme \<Rightarrow> font list \<Rightarrow> 'el batch_item \<Rightarrow> thrown + og_result" where
  "generateItem_try e defaultOptions defaultFonts item =
     (case resolve_element e (element item) of
        Inl err \<Rightarrow> Inl err
      | Inr None \<Rightarrow> Inr (OGError (SVGGenerationError ''Failed to parse HTML element''))
      | Inr (Some reactElement) \<Rightarrow>
         (case satori e reactElement
                 \<lparr>sat_width = nullish (item_option width item) (nullish (width defaultOptions) 1200),
                  sat_height = nullish (item_option height item) (nullish (height defaultOptions) 630),
                  sat_fonts = (case item_option fonts item of
                                 Some (f # rest) \<Rightarrow> f # rest
                               | _ \<Rightarrow> defaultFonts),
                  loadAdditionalAsset = (case item_option emoji item of
                                           Some em \<Rightarrow> Some em
                                         | None \<Rightarrow> emoji defaultOptions)\<rparr> of
            Inl err \<Rightarrow> Inl err
          | Inr svg \<Rightarrow> Inr (OGSuccess svg)))"

definition generateItem ::
  "'el env \<Rightarrow> 'z og_options_scheme \<Rightarrow> font list \<Rightarrow> 'el batch_item \<Rightarrow> og_result" where
  "generateItem e defaultOptions defaultFonts item =
     (case generateItem_try e defaultOptions defaultFonts item of
        Inr r \<Rightarrow> r
      | Inl err \<Rightarrow> OGError (as_error err))"

section \<open>Batch render (generators/batch.ts)\<close>

text \<open>
  \<^verbatim>\<open>Array.prototype.slice(start, end)\<close> on integers: a negative bound counts from the
  end, both bounds are clamped to the array, and an empty or inverted range is empty.
\<close>

definition js_slice :: "'a list \<Rightarrow> int \<Rightarrow> int \<Rightarrow> 'a list" where
  "js_slice xs start fin =
     (let len = int (length xs);
          k = (if start < 0 then max (len + start) 0 else min start len);
          final = (if fin < 0 then max (len + fin) 0 else min fin len)
      in take (nat (final - k)) (drop (nat k) xs))"

text \<open>
  \<^verbatim>\<open>chunk.map(async (item, chunkIndex) => ...)\<close> with \<^verbatim>\<open>index = i + chunkIndex\<close>: the
  callback is started for the items of the chunk from left to right, and
  \<^verbatim>\<open>Promise.all\<close> delivers the results in the order of the chunk. The callback never
  rejects, so neither does \<^verbatim>\<open>Promise.all\<close>.
\<close>

fun render_chunk :: "('i \<Rightarrow> og_result) \<Rightarrow> int \<Rightarrow> 'i list \<Rightarrow> batch_result list" where
  "render_chunk render i [] = []"
| "render_chunk render i (item # chunk) =
     \<lparr>index = i, result = render item\<rparr> # render_chunk render (i + 1) chunk"

text \<open>
  The chunk loop. \<^verbatim>\<open>concurrency\<close> is a JavaScript number that nothing validates: with a
  value below one the loop variable never reaches \<^verbatim>\<open>items.length\<close> and the loop does not
  end, so the loop is a partial function and \<open>None\<close> stands for a promise that never
  settles. Besides \<^verbatim>\<open>results\<close> the model keeps the indices of the renders that were
  started, in starting order.
\<close>

partial_function (option) batch_loop ::
  "('i \<Rightarrow> og_result) \<Rightarrow> 'i list \<Rightarrow> int \<Rightarrow> bool \<Rightarrow> int \<Rightarrow> bool \<Rightarrow>
     batch_result list \<Rightarrow> int list \<Rightarrow> (batch_result list \<times> int list) option" where
  "batch_loop render items conc ff i stopped results started =
     (if i < int (length items) \<and> \<not> stopped then
        (let chunkResults = render_chunk render i (js_slice items i (i + conc))
         in batch_loop render items conc ff (i + conc)
              (ff \<and> list_ex (\<lambda>r. \<not> ok (result r)) chunkResults)
              (results @ chunkResults)
              (started @ map index chunkResults))
      else Some (results, started))"

text \<open>What a settled call leaves behind: the returned array and the renders it started.\<close>

record batch_run =
  returned :: "batch_result list"
  scheduled :: "int list"

text \<open>
  \<open>Some (Inl err)\<close>: the promise returned by \<^verbatim>\<open>generateOGBatch\<close> rejects with \<open>err\<close>;
  \<open>Some (Inr run)\<close>: it resolves; \<open>None\<close>: it never settles. The two \<^verbatim>\<open>await\<close>s before
  the loop are outside any \<^verbatim>\<open>try\<close>. \<^verbatim>\<open>Array.prototype.sort\<close> is stable.
\<close>

definition generateOGBatch ::
  "'el env \<Rightarrow> 'el batch_item list \<Rightarrow> batch_options \<Rightarrow> (thrown + batch_run) option" where
  "generateOGBatch e items opts =
     (case yoga_ready e of
        Some err \<Rightarrow> Some (Inl err)
      | None \<Rightarrow>
         (case fonts_or_default e (fonts opts) of
            Inl err \<Rightarrow> Some (Inl err)
          | Inr defaultFonts \<Rightarrow>
             (case batch_loop (generateItem e opts defaultFonts) items
                     (nullish (concurrency opts) 5) (nullish (failFast opts) False)
                     0 False [] [] of
                None \<Rightarrow> None
              | Some (results, started) \<Rightarrow>
                  Some (Inr \<lparr>returned = sort_key index results, scheduled = started\<rparr>))))"

section \<open>Stream render (generators/stream.ts)\<close>

text \<open>
  \<^verbatim>\<open>generateItem(item, index)\<close> returns a promise at once and the render behind it settles
  later. How much later is up to the environment: \<open>latency idx\<close> is the time the render
  with index \<open>idx\<close> takes, on a virtual clock. A promise is modelled by the result it
  will settle with and the time at which it settles; \<^verbatim>\<open>generateItem\<close> never rejects.
\<close>

record task =
  outcome :: stream_result
  settles_at :: nat

definition start_render :: "('i \<Rightarrow> og_result) \<Rightarrow> (int \<Rightarrow> nat) \<Rightarrow> nat \<Rightarrow> 'i \<Rightarrow> int \<Rightarrow> task" where
  "start_render render latency now item idx =
     \<lparr>outcome = \<lparr>index = idx, result = render item\<rparr>, settles_at = now + latency idx\<rparr>"

text \<open>
  What the generator does, in order: it starts the render with a given index, or it
  yields a result (at a time of the virtual clock).
\<close>

datatype stream_event = Start int | Yield stream_result nat

text \<open>
  The initial fill: \<^verbatim>\<open>for (let i = 0; i < prefetch; i++)\<close>, leaving the loop when the
  iterator is done. The item sequence is a finite list; pulling from it takes no time.
  The result is what is left of the iterator, the next index and the queue.
\<close>

fun fill ::
  "('i \<Rightarrow> og_result) \<Rightarrow> (int \<Rightarrow> nat) \<Rightarrow> int \<Rightarrow> int \<Rightarrow> 'i list \<Rightarrow> int \<Rightarrow> task list \<Rightarrow>
     'i list \<times> int \<times> task list" where
  "fill render latency i pf [] idx pending = ([], idx, pending)"
| "fill render latency i pf (item # rest) idx pending =
     (if i < pf
      then fill render latency (i + 1) pf rest (idx + 1)
             (pending @ [start_render render latency 0 item idx])
      else (item # rest, idx, pending))"

text \<open>
  The sliding window: \<^verbatim>\<open>while (pending.length > 0)\<close>. \<^verbatim>\<open>await pending.shift()\<close> takes the
  head of the queue and suspends until that promise has settled, whatever the others
  have done meanwhile; then the result is yielded and one more item is pulled.
\<close>

fun drain ::
  "('i \<Rightarrow> og_result) \<Rightarrow> (int \<Rightarrow> nat) \<Rightarrow> nat \<Rightarrow> task list \<Rightarrow> 'i list \<Rightarrow> int \<Rightarrow> stream_event list" where
  "drain render latency now [] rest idx = []"
| "drain render latency now (t # pending) [] idx =
     Yield (outcome t) (max now (settles_at t)) #
       drain render latency (max now (settles_at t)) pending [] idx"
| "drain render latency now (t # pending) (item # rest) idx =
     Yield (outcome t) (max now (settles_at t)) # Start idx #
       drain render latency (max now (settles_at t))
         (pending @ [start_render render latency (max now (settles_at t)) item idx]) rest (idx + 1)"

text \<open>
  A run of the generator by a consumer that keeps asking until it is done: the events
  in order, and the value thrown into the consumer if the generator threw. The two
  \<^verbatim>\<open>await\<close>s before the pipeline are outside any \<^verbatim>\<open>try\<close>.
\<close>

record stream_run =
  trace :: "stream_event list"
  threw :: "thrown option"

definition OGStream ::
  "'el env \<Rightarrow> (int \<Rightarrow> nat) \<Rightarrow> 'el stream_item list \<Rightarrow> stream_options \<Rightarrow> stream_run" where
  "OGStream e latency items opts =
     (case yoga_ready e of
        Some err \<Rightarrow> \<lparr>trace = [], threw = Some err\<rparr>
      | None \<Rightarrow>
         (case fonts_or_default e (fonts opts) of
            Inl err \<Rightarrow> \<lparr>trace = [], threw = Some err\<rparr>
          | Inr defaultFonts \<Rightarrow>
             (case fill (generateItem e opts defaultFonts) latency 0 (nullish (prefetch opts) 3)
                     items 0 [] of
                (rest, idx, pending) \<Rightarrow>
                  \<lparr>trace = map (\<lambda>t. Start (index (outcome t))) pending @
                             drain (generateItem e opts defaultFonts) latency 0 pending rest idx,
                   threw = None\<rparr>)))"

text \<open>The results yielded, the times at which they were yielded, the renders started.\<close>

fun yielded :: "stream_event list \<Rightarrow> stream_result list" where
  "yielded [] = []"
| "yielded (Yield r t # evs) = r # yielded evs"
| "yielded (Start i # evs) = yielded evs"

fun yield_times :: "stream_event list \<Rightarrow> nat list" where
  "yield_times [] = []"
| "yield_times (Yield r t # evs) = t # yield_times evs"
| "yield_times (Start i # evs) = yield_times evs"

fun started :: "stream_event list \<Rightarrow> int list" where
  "started [] = []"
| "started (Yield r t # evs) = started evs"
| "started (Start i # evs) = i # started evs"

text \<open>
  The expected output of both orchestrators: the items rendered one by one and numbered
  from \<open>i\<close> on.
\<close>

definition in_order :: "('i \<Rightarrow> og_result) \<Rightarrow> 'i list \<Rightarrow> batch_result list" where
  "in_order render items =
     map (\<lambda>k. \<lparr>index = int k, result = render (items ! k)\<rparr>) [0..<length items]"

section \<open>Style attributes (html/utils.ts)\<close>

text \<open>
  Strings are lists of 8-bit characters, which covers the code units below 256. The
  double quote and the backslash are written by their codes.
\<close>

definition dq :: char where
  "dq = CHR 0x22"

definition bs :: char where
  "bs = CHR 0x5C"

text \<open>The class \<^verbatim>\<open>\s\<close> and the line terminators (which \<^verbatim>\<open>.\<close> does not match), below 256.\<close>

definition js_space :: "char \<Rightarrow> bool" where
  "js_space c \<longleftrightarrow> c \<in> set [CHR 0x09, CHR 0x0A, CHR 0x0B, CHR 0x0C, CHR 0x0D, CHR 0x20, CHR 0xA0]"

definition line_terminator :: "char \<Rightarrow> bool" where
  "line_terminator c \<longleftrightarrow> c = CHR 0x0A \<or> c = CHR 0x0D"

text \<open>\<^verbatim>\<open>s.replace(/c/g, r)\<close> for a single character \<open>c\<close>.\<close>

definition replace_all :: "char \<Rightarrow> string \<Rightarrow> string \<Rightarrow> string" where
  "replace_all c r s = concat (map (\<lambda>x. if x = c then r else [x]) s)"

definition sanitizeJSON :: "string \<Rightarrow> string" where
  "sanitizeJSON unsanitized =
     replace_all dq [bs, dq]
       (replace_all (CHR 0x0C) [bs, CHR ''f'']
         (replace_all (CHR 0x09) [bs, CHR ''t'']
           (replace_all (CHR 0x0D) [bs, CHR ''r'']
             (replace_all (CHR 0x0A) [bs, CHR ''n'']
               (replace_all bs [bs, bs] unsanitized)))))"

text \<open>\<^verbatim>\<open>s.replace(/\s\s+/g, " ")\<close>: every maximal run of two or more blanks becomes one space.\<close>

function collapse_spaces :: "string \<Rightarrow> string" where
  "collapse_spaces [] = []"
| "collapse_spaces [c] = [c]"
| "collapse_spaces (a # b # cs) =
     (if js_space a \<and> js_space b
      then CHR '' '' # collapse_spaces (dropWhile js_space cs)
      else a # collapse_spaces (b # cs))"
  by pat_completeness auto
termination
  by (relation "measure length") (simp_all add: less_Suc_eq_le le_SucI length_dropWhile_le)

definition cleanStyle :: "string \<Rightarrow> string" where
  "cleanStyle style_attr = collapse_spaces (filter (\<lambda>c. c \<noteq> CHR 0x0A) style_attr)"

text \<open>
  The lookahead \<^verbatim>\<open>[^(]*\)\<close> of the splitting expression, tried at the start of a string:
  it matches when a closing parenthesis comes before any opening one.
\<close>

fun closes_first :: "string \<Rightarrow> bool" where
  "closes_first [] = False"
| "closes_first (c # cs) =
     (if c = CHR '')'' then True else if c = CHR ''('' then False else closes_first cs)"

text \<open>
  \<^verbatim>\<open>s.split(/;(?![^(]*\))/)\<close>: the string is cut at every semicolon at which the negative
  lookahead succeeds, that is, at which \<^verbatim>\<open>[^(]*\)\<close> does not match what follows.
\<close>

fun split_style :: "string \<Rightarrow> string list" where
  "split_style [] = [[]]"
| "split_style (c # cs) =
     (if c = CHR '';'' \<and> \<not> closes_first cs then [] # split_style cs
      else (case split_style cs of
              piece # pieces \<Rightarrow> (c # piece) # pieces
            | [] \<Rightarrow> [[c]]))"

text \<open>
  \<^verbatim>\<open>const [k, v] = cur.split(/:(.+)/)\<close>: the first colon that is followed by at least one
  character other than a line terminator cuts off \<open>k\<close>, and \<open>v\<close> is the captured run up
  to the next line terminator; without such a colon \<open>k\<close> is the whole string and \<open>v\<close> is
  \<^verbatim>\<open>undefined\<close>.
\<close>

fun split_colon :: "string \<Rightarrow> string \<times> string option" where
  "split_colon [] = ([], None)"
| "split_colon (c # cs) =
     (if c = CHR '':'' \<and> takeWhile (\<lambda>x. \<not> line_terminator x) cs \<noteq> []
      then ([], Some (takeWhile (\<lambda>x. \<not> line_terminator x) cs))
      else (case split_colon cs of (k, v) \<Rightarrow> (c # k, v)))"

definition trim :: "string \<Rightarrow> string" where
  "trim s = rev (dropWhile js_space (rev (dropWhile js_space s)))"

text \<open>
  The key and value that one piece contributes, if \<^verbatim>\<open>k && v\<close> holds. \<^verbatim>\<open>camelCase\<close> is the
  function of the package \<^verbatim>\<open>just-camel-case\<close>, a parameter here.
\<close>

definition style_entry :: "(string \<Rightarrow> string) \<Rightarrow> string \<Rightarrow> (string \<times> string) option" where
  "style_entry camelCase cur =
     (case split_colon cur of
        (k, Some v) \<Rightarrow>
          if k \<noteq> [] \<and> v \<noteq> [] then Some (camelCase (trim k), sanitizeJSON (trim v)) else None
      | (k, None) \<Rightarrow> None)"

text \<open>The reducer: \<^verbatim>\<open>acc += `"${camelCase(k.trim())}": "${sanitizeJSON(v.trim())}",`\<close>.\<close>

definition style_reduce :: "(string \<Rightarrow> string) \<Rightarrow> string \<Rightarrow> string \<Rightarrow> string" where
  "style_reduce camelCase acc cur =
     (case style_entry camelCase cur of
        Some (k, v) \<Rightarrow> acc @ [dq] @ k @ [dq] @ '': '' @ [dq] @ v @ [dq] @ '',''
      | None \<Rightarrow> acc)"

definition maybeRemoveTrailingComma :: "string \<Rightarrow> string" where
  "maybeRemoveTrailingComma str = (if str \<noteq> [] \<and> last str = CHR '','' then butlast str else str)"

text \<open>
  \<^verbatim>\<open>getAttributes\<close>; the element is given by its \<^verbatim>\<open>getAttribute\<close>. An empty string is
  falsy. The warning written to the console is not modelled.
\<close>

definition getAttributes :: "(string \<Rightarrow> string) \<Rightarrow> (string \<Rightarrow> string option) \<Rightarrow> string" where
  "getAttributes camelCase getAttribute =
     (let attrs_style =
            (case getAttribute ''style'' of
               None \<Rightarrow> []
             | Some style_attr \<Rightarrow>
                 if style_attr = [] then []
                 else (let styleStr = maybeRemoveTrailingComma
                             (foldl (style_reduce camelCase) [] (split_style (cleanStyle style_attr)))
                       in if styleStr = [] then []
                          else [dq] @ ''style'' @ [dq] @ '':{'' @ styleStr @ ''},''));
          attrs_src =
            (case getAttribute ''src'' of
               None \<Rightarrow> []
             | Some src \<Rightarrow>
                 if src = [] then []
                 else if nullish (getAttribute ''width'') [] \<noteq> [] \<and>
                         nullish (getAttribute ''height'') [] \<noteq> []
                 then [dq] @ ''src'' @ [dq] @ '':'' @ [dq] @ sanitizeJSON src @ [dq] @
                      '', '' @ [dq] @ ''width'' @ [dq] @ '':'' @ [dq] @
                        nullish (getAttribute ''width'') [] @ [dq] @
                      '', '' @ [dq] @ ''height'' @ [dq] @ '':'' @ [dq] @
                        nullish (getAttribute ''height'') [] @ [dq] @ '',''
                 else [dq] @ ''src'' @ [dq] @ '':'' @ [dq] @ sanitizeJSON src @ [dq] @ '','')
      in attrs_style @ attrs_src)"

text \<open>The key/value pairs of a style attribute, in order: what ends up in the style map.\<close>

definition style_entries :: "(string \<Rightarrow> string) \<Rightarrow> string \<Rightarrow> (string \<times> string) list" where
  "style_entries camelCase style_attr =
     List.map_filter (style_entry camelCase) (split_style (cleanStyle style_attr))"

section \<open>Sample inputs\<close>

text \<open>
  Concrete inputs at which the theorems below are instantiated: an environment in which
  the engine is ready, the parser yields \<^verbatim>\<open>null\<close> for a string that holds a backspace
  character (a control character that \<^verbatim>\<open>sanitizeJSON\<close> leaves as it is and \<^verbatim>\<open>JSON.parse\<close>
  does not accept inside a string) and a node for every other string, the font loader
  delivers an (empty) font file and the engine renders every node; a document with such
  a character; items given as HTML strings without options of their own; batch options
  with a given \<^verbatim>\<open>concurrency\<close> and \<^verbatim>\<open>failFast\<close>.
\<close>

definition sample_env :: "nat env" where
  "sample_env =
     \<lparr>yoga_ready = None,
      parseHtml = (\<lambda>s. if CHR 0x08 \<in> set s then Inr None else Inr (Some 0)),
      loadGoogleFont = (\<lambda>family w. Inr []),
      satori = (\<lambda>el opts. Inr ''<svg/>'')\<rparr>"

definition unparsable :: string where
  "unparsable = ''<p>'' @ [CHR 0x08] @ ''</p>''"

definition no_options :: og_options where
  "no_options = \<lparr>width = None, height = None, fonts = None, emoji = None, debug = None\<rparr>"

definition html_item :: "string \<Rightarrow> nat batch_item" where
  "html_item s = \<lparr>element = Html s, options = None\<rparr>"

definition sample_batch_options :: "int \<Rightarrow> bool \<Rightarrow> batch_options" where
  "sample_batch_options c ff =
     \<lparr>width = None, height = None, fonts = None, emoji = None, debug = None,
      concurrency = Some c, failFast = Some ff\<rparr>"

text \<open>
  Stream options with a given \<^verbatim>\<open>prefetch\<close>, and latencies under which the first render
  is slow and every later one fast.
\<close>

definition sample_stream_options :: "int \<Rightarrow> stream_options" where
  "sample_stream_options w =
     \<lparr>width = None, height = None, fonts = None, emoji = None, debug = None, prefetch = Some w\<rparr>"

definition slow_first :: "int \<Rightarrow> nat" where
  "slow_first idx = (if idx = 0 then 10 else 1)"

text \<open>
  Two environments in which an \<^verbatim>\<open>await\<close> that precedes the pipelines fails: the readiness
  check rejects with an ordinary error, or the default font cannot be loaded.
\<close>

definition engine_failing_env :: "nat env" where
  "engine_failing_env = sample_env\<lparr>yoga_ready := Some (JsError ''Error'' ''boom'')\<rparr>"

definition font_failing_env :: "nat env" where
  "font_failing_env =
     sample_env\<lparr>loadGoogleFont :=
       (\<lambda>family w. Inl (FontLoadError ''Could not find font URL for Bitter''))\<rparr>"

section \<open>The engine singleton: invariant and basic facts\<close>

lemma run_snoc: "run (evs @ [e]) = step (run evs) e"
  by (simp add: run_def)

lemma inv0: "inv runtime0"
  by (simp add: inv_def runtime0_def state0_def)

lemma ensure_ready: "initialized (state w) \<Longrightarrow> ensureYogaInitialized w = (w, Ready)"
  by (simp add: ensureYogaInitialized_def)

lemma ensure_attach: "\<not> initialized (state w) \<Longrightarrow> initializing (state w) = Some p \<Longrightarrow> ensureYogaInitialized w = (w, Waits p)"
  by (simp add: ensureYogaInitialized_def)

lemma ensure_start: "\<not> initialized (state w) \<Longrightarrow> initializing (state w) = None \<Longrightarrow>
  ensureYogaInitialized w = (w\<lparr>state := (state w)\<lparr>initializing := Some (length (promises w))\<rparr>,
              promises := promises w @ [Pending],
              initYoga_calls := initYoga_calls w + 1\<rparr>, Waits (length (promises w)))"
  by (simp add: ensureYogaInitialized_def Let_def)

lemma inv_call: assumes "inv w" shows "inv (fst (ensureYogaInitialized w))"
proof (cases "initialized (state w)")
  case True
  then show ?thesis using assms by (simp add: ensure_ready)
next
  case False
  show ?thesis
  proof (cases "initializing (state w)")
    case (Some p)
    then show ?thesis using assms False by (simp add: ensure_attach)
  next
    case None
    have "\<forall>q < length (promises w). promises w ! q \<noteq> Pending"
      using assms None by (auto simp: inv_def)
    then show ?thesis using False None
      by (simp add: ensure_start inv_def nth_append less_Suc_eq)
  qed
qed



lemma inv_pending: "inv w \<Longrightarrow> q < length (promises w) \<Longrightarrow> promises w ! q = Pending \<Longrightarrow> initializing (state w) = Some q"
  unfolding inv_def by blast

lemma inv_in_flight: "inv w \<Longrightarrow> initializing (state w) = Some p \<Longrightarrow> p < length (promises w) \<and> promises w ! p = Pending \<and> \<not> initialized (state w)"
  unfolding inv_def by blast

lemma invI: "(\<And>q. q < length (promises w) \<Longrightarrow> promises w ! q \<noteq> Pending) \<Longrightarrow> initializing (state w) = None \<Longrightarrow> inv w"
  unfolding inv_def by simp

lemma resume_shape:
  "initializing (state (resume p out w)) = None \<and>
   length (promises (resume p out w)) = length (promises w) \<and>
   initYoga_calls (resume p out w) = initYoga_calls w \<and>
   (\<forall>q. q \<noteq> p \<longrightarrow> promises (resume p out w) ! q = promises w ! q)"
  by (cases out; simp add: resume_def catch_finally_def split: option.split)

lemma resume_settles:
  "p < length (promises w) \<Longrightarrow> promises (resume p out w) ! p \<noteq> Pending"
  by (cases out; simp add: resume_def catch_finally_def split: option.split)

lemma inv_resume:
  assumes "inv w" "p < length (promises w)" "promises w ! p = Pending"
  shows "inv (resume p out w)"
proof (rule invI)
  fix q assume "q < length (promises (resume p out w))"
  then have q: "q < length (promises w)" using resume_shape [of p out w] by simp
  show "promises (resume p out w) ! q \<noteq> Pending"
  proof (cases "q = p")
    case True
    then show ?thesis using resume_settles [OF assms(2)] by simp
  next
    case False
    have "promises w ! q \<noteq> Pending"
    proof
      assume "promises w ! q = Pending"
      then have "initializing (state w) = Some q" using assms(1) q by (rule inv_pending [rotated 2])
      moreover have "initializing (state w) = Some p" using assms by (rule inv_pending)
      ultimately show False using False by simp
    qed
    moreover have "promises (resume p out w) ! q = promises w ! q"
      using resume_shape [of p out w] False by blast
    ultimately show ?thesis by simp
  qed
next
  show "initializing (state (resume p out w)) = None"
    using resume_shape [of p out w] by blast
qed

lemma inv_step: "inv (fst s) \<Longrightarrow> inv (fst (step s ev))"
proof (cases ev)
  case Call
  assume "inv (fst s)"
  then have "inv (fst (ensureYogaInitialized (fst s)))" by (rule inv_call)
  then show ?thesis using Call by (simp add: step_def split_beta)
next
  case (Settle p out)
  assume "inv (fst s)"
  then show ?thesis using Settle by (simp add: step_def inv_resume)
qed

lemma inv_run: "inv (fst (run evs))"
proof (induction evs rule: rev_induct)
  case Nil
  show ?case by (simp add: run_def inv0)
next
  case (snoc e evs)
  then show ?case by (simp add: run_snoc inv_step)
qed


lemma step_call: "step (w, hs) Call = (fst (ensureYogaInitialized w), hs @ [snd (ensureYogaInitialized w)])"
  by (simp add: step_def split_beta)

lemma step_settle_pending:
  "p < length (promises w) \<Longrightarrow> promises w ! p = Pending \<Longrightarrow> step (w, hs) (Settle p out) = (resume p out w, hs)"
  by (simp add: step_def)

lemma step_settle_idle:
  "\<not> (p < length (promises w) \<and> promises w ! p = Pending) \<Longrightarrow> step (w, hs) (Settle p out) = (w, hs)"
  by (auto simp: step_def)

lemma run_calls: "0 < N \<Longrightarrow> run (replicate N Call) = (attempt1, replicate N (Waits 0))"
proof (induction N)
  case 0
  then show ?case by simp
next
  case (Suc n)
  show ?case
  proof (cases "n = 0")
    case True
    then show ?thesis
      by (simp add: run_def step_call ensureYogaInitialized_def runtime0_def state0_def attempt1_def)
  next
    case False
    then have "run (replicate n Call) = (attempt1, replicate n (Waits 0))" using Suc.IH by simp
    moreover have "run (replicate (Suc n) Call) = step (run (replicate n Call)) Call"
      using run_snoc [of "replicate n Call" Call] by (simp add: replicate_append_same)
    moreover have "replicate (Suc n) (Waits 0) = replicate n (Waits 0) @ [Waits 0]"
      by (simp add: replicate_append_same)
    ultimately show ?thesis
      by (simp only: step_call) (simp add: ensureYogaInitialized_def attempt1_def)
  qed
qed

lemma ready_no_pending:
  assumes "inv w" "initialized (state w)"
  shows "\<not> (p < length (promises w) \<and> promises w ! p = Pending)"
proof
  assume "p < length (promises w) \<and> promises w ! p = Pending"
  then have "initializing (state w) = Some p" using assms(1) by (simp add: inv_pending)
  then show False using assms inv_in_flight by blast
qed

lemma ready_step: "inv w \<Longrightarrow> initialized (state w) \<Longrightarrow> fst (step (w, hs) ev) = w"
  by (cases ev) (simp_all add: step_call ensure_ready step_settle_idle ready_no_pending)

lemma ready_stable: "inv w \<Longrightarrow> initialized (state w) \<Longrightarrow> fst (foldl step (w, hs) evs) = w"
proof (induction evs arbitrary: hs)
  case Nil
  show ?case by simp
next
  case (Cons e evs)
  obtain hs' where "step (w, hs) e = (w, hs')"
    using ready_step [OF Cons.prems, of hs e] by (cases "step (w, hs) e") simp
  then show ?case using Cons by simp
qed

lemma run_append: "run (evs @ later) = foldl step (run evs) later"
  by (simp add: run_def)


lemma resume_genuine:
  assumes "\<not> is_already_initialized err" "out = YogaRejected err \<or> out = YogaResolved y (Some err)"
  shows "state (resume p out w) = (state w)\<lparr>initializing := None\<rparr>"
    and "promises (resume p out w) = (promises w)[p := Rejected err]"
    and "initYoga_calls (resume p out w) = initYoga_calls w"
  using assms by (auto simp: resume_def catch_finally_def)

section \<open>The engine singleton: claims\<close>

text \<open>
  Claim C9. Once the engine is ready, \<^verbatim>\<open>ensureYogaInitialized\<close> takes the fast path: it
  returns at once, without handing out a promise of the initialiser to wait for, and it
  leaves the whole runtime as it was: the state object with its in-flight handle, the
  promises and the call counts of \<^verbatim>\<open>initYoga\<close> and \<^verbatim>\<open>initSatori\<close>. Calling it any
  number of times is therefore the same as not calling it at all, except that every
  caller is told that the engine is ready.
\<close>

theorem ensureYogaInitialized_ready_is_noop:
  assumes "initialized (state w)"
  shows "ensureYogaInitialized w = (w, Ready) \<and>
         foldl step (w, hs) (replicate n Call) = (w, hs @ replicate n Ready)"
proof
  show once: "ensureYogaInitialized w = (w, Ready)"
    using assms by (simp add: ensureYogaInitialized_def)
  show "foldl step (w, hs) (replicate n Call) = (w, hs @ replicate n Ready)"
  proof (induction n arbitrary: hs)
    case 0
    show ?case by simp
  next
    case (Suc n)
    have "foldl step (w, hs) (replicate (Suc n) Call) =
          foldl step (w, hs @ [Ready]) (replicate n Call)"
      by (simp add: step_call once)
    also have "\<dots> = (w, (hs @ [Ready]) @ replicate n Ready)"
      by (rule Suc.IH)
    finally show ?case by simp
  qed
qed

text \<open>
  The fast path at the runtime reached by one call whose attempt succeeded, taken by
  three further callers.
\<close>

theorem ensureYogaInitialized_ready_is_noop_witness:
  "initialized (state (fst (run [Call, Settle 0 (YogaResolved 7 None)]))) \<and>
   ensureYogaInitialized (fst (run [Call, Settle 0 (YogaResolved 7 None)])) =
     (fst (run [Call, Settle 0 (YogaResolved 7 None)]), Ready) \<and>
   foldl step (run [Call, Settle 0 (YogaResolved 7 None)]) (replicate 3 Call) =
     (fst (run [Call, Settle 0 (YogaResolved 7 None)]), [Waits 0, Ready, Ready, Ready])"
proof -
  have r: "initialized (state (fst (run [Call, Settle 0 (YogaResolved 7 None)])))"
    by (simp add: run_def step_def ensureYogaInitialized_def resume_def runtime0_def state0_def)
  have hs: "snd (run [Call, Settle 0 (YogaResolved 7 None)]) = [Waits 0]"
    by (simp add: run_def step_def ensureYogaInitialized_def resume_def runtime0_def state0_def)
  have "foldl step (fst (run [Call, Settle 0 (YogaResolved 7 None)]), [Waits 0]) (replicate 3 Call) =
        (fst (run [Call, Settle 0 (YogaResolved 7 None)]), [Waits 0] @ replicate 3 Ready)"
    using ensureYogaInitialized_ready_is_noop [OF r, of "[Waits 0]" 3] by blast
  moreover have "run [Call, Settle 0 (YogaResolved 7 None)] =
      (fst (run [Call, Settle 0 (YogaResolved 7 None)]), [Waits 0])"
    using hs by (metis prod.collapse)
  ultimately have many: "foldl step (run [Call, Settle 0 (YogaResolved 7 None)]) (replicate 3 Call) =
     (fst (run [Call, Settle 0 (YogaResolved 7 None)]), [Waits 0, Ready, Ready, Ready])"
    by (simp add: numeral_3_eq_3)
  show ?thesis
    using r many ensureYogaInitialized_ready_is_noop [OF r, of "[]" 0] by simp
qed

text \<open>
  Claim C8. Let an attempt be in flight (its promise \<open>p\<close> is the in-flight handle) in any
  runtime the program can reach, and let it fail genuinely: \<^verbatim>\<open>initYoga\<close> rejects with
  \<open>err\<close>, or \<^verbatim>\<open>initSatori\<close> throws \<open>err\<close>, and \<open>err\<close> is not the "Already initialized"
  signal. Then every caller whose promise follows \<open>p\<close> observes the rejection with \<open>err\<close>; the
  state is uninitialised again (\<^verbatim>\<open>initialized\<close> is false, the handle is cleared); the
  failure itself calls \<^verbatim>\<open>initYoga\<close> no further time; and the next call of
  \<^verbatim>\<open>ensureYogaInitialized\<close> starts a fresh attempt: one more call of \<^verbatim>\<open>initYoga\<close> and a
  new pending promise, different from \<open>p\<close>, as the handle.
\<close>

theorem genuine_failure_reverts_and_allows_retry:
  assumes flight: "initializing (state (fst (run evs))) = Some p"
    and genuine: "\<not> is_already_initialized err"
    and out: "out = YogaRejected err \<or> out = YogaResolved y (Some err)"
  shows "let w = fst (run evs);
             w' = fst (run (evs @ [Settle p out]));
             (w'', h) = ensureYogaInitialized w'
         in (\<forall>c \<in> set (snd (run evs)). c = Waits p \<longrightarrow> observed w' c = Rejected err) \<and>
            \<not> initialized (state w') \<and> initializing (state w') = None \<and>
            initYoga_calls w' = initYoga_calls w \<and>
            h = Waits (length (promises w')) \<and> h \<noteq> Waits p \<and>
            initializing (state w'') = Some (length (promises w')) \<and>
            promises w'' ! length (promises w') = Pending \<and>
            initYoga_calls w'' = initYoga_calls w' + 1"
proof -
  define w where "w = fst (run evs)"
  define w' where "w' = resume p out w"
  have "inv w" unfolding w_def by (rule inv_run)
  then have pend: "p < length (promises w)" "promises w ! p = Pending" "\<not> initialized (state w)"
    using flight inv_in_flight [of w p] by (simp_all add: w_def)
  have run': "fst (run (evs @ [Settle p out])) = w'"
    using step_settle_pending [OF pend(1,2), of "snd (run evs)" out]
    by (simp add: run_snoc w_def w'_def)
  have st: "state w' = (state w)\<lparr>initializing := None\<rparr>"
    and pr: "promises w' = (promises w)[p := Rejected err]"
    and cnt: "initYoga_calls w' = initYoga_calls w"
    unfolding w'_def using resume_genuine [OF genuine out] by simp_all
  have fresh: "ensureYogaInitialized w' =
      (w'\<lparr>state := (state w')\<lparr>initializing := Some (length (promises w'))\<rparr>,
          promises := promises w' @ [Pending],
          initYoga_calls := initYoga_calls w' + 1\<rparr>, Waits (length (promises w')))"
    by (rule ensure_start) (simp_all add: st pend)
  have obs: "observed w' (Waits p) = Rejected err"
    using pend(1) by (simp add: observed_def pr)
  show ?thesis
    unfolding Let_def run' w_def [symmetric] fresh
    using obs pend st cnt pr by (auto simp: nth_append)
qed

text \<open>
  Two callers wait on the first attempt, which \<^verbatim>\<open>initYoga\<close> rejects with an ordinary
  \<^verbatim>\<open>Error("boom")\<close>.
\<close>

theorem genuine_failure_reverts_and_allows_retry_witness:
  "initializing (state (fst (run [Call, Call]))) = Some 0 \<and>
   \<not> is_already_initialized (JsError ''Error'' ''boom'') \<and>
   Waits 0 \<in> set (snd (run [Call, Call])) \<and>
   (let w = fst (run [Call, Call]);
        w' = fst (run ([Call, Call] @ [Settle 0 (YogaRejected (JsError ''Error'' ''boom''))]));
        (w'', h) = ensureYogaInitialized w'
    in (\<forall>c \<in> set (snd (run [Call, Call])). c = Waits 0 \<longrightarrow>
          observed w' c = Rejected (JsError ''Error'' ''boom'')) \<and>
       \<not> initialized (state w') \<and> initializing (state w') = None \<and>
       initYoga_calls w' = initYoga_calls w \<and>
       h = Waits (length (promises w')) \<and> h \<noteq> Waits 0 \<and>
       initializing (state w'') = Some (length (promises w')) \<and>
       promises w'' ! length (promises w') = Pending \<and>
       initYoga_calls w'' = initYoga_calls w' + 1)"
proof -
  have flight: "initializing (state (fst (run [Call, Call]))) = Some 0"
    by (simp add: run_def step_def ensureYogaInitialized_def runtime0_def state0_def)
  have genuine: "\<not> is_already_initialized (JsError ''Error'' ''boom'')"
    by (simp add: is_already_initialized_def)
  have waiter: "Waits 0 \<in> set (snd (run [Call, Call]))"
    by (simp add: run_def step_def ensureYogaInitialized_def runtime0_def state0_def)
  show ?thesis
    using flight genuine waiter
      genuine_failure_reverts_and_allows_retry
        [OF flight genuine, of "YogaRejected (JsError ''Error'' ''boom'')" 0]
    by blast
qed

text \<open>
  Claim C1, as stated, promises that \<^verbatim>\<open>initYoga\<close> plus \<^verbatim>\<open>initSatori\<close> run exactly once
  per process lifetime whatever the outcome, rejection included. When the attempt
  shared by two first-time callers is rejected, \<^verbatim>\<open>initSatori\<close> has not run at all, and
  the next call starts a second attempt: \<^verbatim>\<open>initYoga\<close> has then run twice in the same
  process.
\<close>

theorem initialization_reruns_after_failure:
  "initSatori_calls (fst (run [Call, Call, Settle 0 (YogaRejected (JsError ''Error'' ''boom''))])) = 0 \<and>
   initYoga_calls (fst (run [Call, Call, Settle 0 (YogaRejected (JsError ''Error'' ''boom'')), Call])) = 2"
  by (simp add: run_def step_def ensureYogaInitialized_def resume_def catch_finally_def
      is_already_initialized_def runtime0_def state0_def)

text \<open>
  Claim C1, amended. \<open>N \<ge> 1\<close> callers arrive before the first attempt settles. After the
  \<open>N\<close> calls \<^verbatim>\<open>initYoga\<close> has been called exactly once and \<^verbatim>\<open>initSatori\<close> not yet, there
  is exactly one attempt, and the promise of each of the \<open>N\<close> callers follows the promise
  of that attempt. When the attempt settles (in whichever way \<open>out\<close>), \<^verbatim>\<open>initYoga\<close> has
  still been called exactly once, and \<^verbatim>\<open>initSatori\<close> exactly once if \<^verbatim>\<open>initYoga\<close> resolved
  and not at all if it rejected. The callers all observe the same outcome, the one the
  attempt settles with: all see fulfilment, or all see the rejection with one and the
  same error. If the outcome is fulfilment, nothing that happens later in the process
  changes the runtime any more; in particular, when the attempt succeeds, \<^verbatim>\<open>initYoga\<close>
  and \<^verbatim>\<open>initSatori\<close> have each run exactly once for the whole process lifetime. Only
  after a rejection may a later call start a new attempt (claim C8).
\<close>

theorem concurrent_first_callers_share_one_attempt:
  assumes "0 < N"
  shows "let (w, hs) = run (replicate N Call);
             (w', hs') = run (replicate N Call @ [Settle 0 out])
         in initYoga_calls w = 1 \<and> initSatori_calls w = 0 \<and> promises w = [Pending] \<and>
            hs = replicate N (Waits 0) \<and>
            initYoga_calls w' = 1 \<and>
            initSatori_calls w' = (case out of YogaResolved y t \<Rightarrow> 1 | YogaRejected err \<Rightarrow> 0) \<and>
            hs' = hs \<and>
            (\<forall>h \<in> set hs'. observed w' h = settles_with out) \<and>
            ((\<forall>h \<in> set hs'. observed w' h = Fulfilled) \<or>
             (\<exists>err. \<forall>h \<in> set hs'. observed w' h = Rejected err)) \<and>
            (promises w' ! 0 = Fulfilled \<longrightarrow>
               (\<forall>later. fst (run (replicate N Call @ [Settle 0 out] @ later)) = w')) \<and>
            (\<forall>y. out = YogaResolved y None \<longrightarrow>
               (\<forall>later.
                  initYoga_calls (fst (run (replicate N Call @ [Settle 0 out] @ later))) = 1 \<and>
                  initSatori_calls (fst (run (replicate N Call @ [Settle 0 out] @ later))) = 1))"
proof -
  let ?hs = "replicate N (Waits 0)"
  let ?w' = "resume 0 out attempt1"
  have calls: "run (replicate N Call) = (attempt1, ?hs)"
    using assms by (rule run_calls)
  have settled: "run (replicate N Call @ [Settle 0 out]) = (?w', ?hs)"
    by (simp add: run_snoc calls step_def attempt1_def)
  have yoga_cnt: "initYoga_calls ?w' = 1"
    by (cases out; simp add: resume_def catch_finally_def attempt1_def split: option.split)
  have satori_cnt:
    "initSatori_calls ?w' = (case out of YogaResolved y t \<Rightarrow> 1 | YogaRejected err \<Rightarrow> 0)"
    by (cases out; simp add: resume_def catch_finally_def attempt1_def split: option.split)
  have status: "promises ?w' = [settles_with out]"
    by (cases out;
        simp add: resume_def catch_finally_def attempt1_def settles_with_def split: option.split)
  have ready_if: "initialized (state ?w')" if "promises ?w' ! 0 = Fulfilled"
    using that
    by (cases out;
        simp add: resume_def catch_finally_def attempt1_def split: option.split_asm if_split_asm)
  have same: "\<forall>h \<in> set ?hs. observed ?w' h = settles_with out"
    by (simp add: observed_def status)
  have either: "(\<forall>h \<in> set ?hs. observed ?w' h = Fulfilled) \<or>
             (\<exists>err. \<forall>h \<in> set ?hs. observed ?w' h = Rejected err)"
  proof (cases "settles_with out")
    case Pending
    then show ?thesis
      by (cases out) (simp_all add: settles_with_def split: option.split_asm if_split_asm)
  next
    case Fulfilled
    then show ?thesis using same by simp
  next
    case (Rejected err)
    then show ?thesis using same by auto
  qed
  have stable: "fst (run (replicate N Call @ [Settle 0 out] @ later)) = ?w'"
    if "promises ?w' ! 0 = Fulfilled" for later
  proof -
    have ready: "initialized (state ?w')" using that by (rule ready_if)
    have "inv (fst (run (replicate N Call @ [Settle 0 out])))" by (rule inv_run)
    then have "inv ?w'" by (simp add: settled)
    then have "fst (foldl step (?w', ?hs) later) = ?w'" using ready by (rule ready_stable)
    then show ?thesis
      using run_append [of "replicate N Call @ [Settle 0 out]" later] by (simp add: settled)
  qed
  have lifetime:
    "initYoga_calls (fst (run (replicate N Call @ [Settle 0 out] @ later))) = 1 \<and>
     initSatori_calls (fst (run (replicate N Call @ [Settle 0 out] @ later))) = 1"
    if "out = YogaResolved y None" for y later
  proof -
    have "promises ?w' ! 0 = settles_with out" by (simp only: status nth_Cons_0)
    then have "promises ?w' ! 0 = Fulfilled" using that by (simp add: settles_with_def)
    then have "fst (run (replicate N Call @ [Settle 0 out] @ later)) = ?w'" by (rule stable)
    then show ?thesis using yoga_cnt satori_cnt that by simp
  qed
  show ?thesis
    unfolding calls settled Let_def prod.case
    using yoga_cnt satori_cnt same either stable lifetime by (simp add: attempt1_def)
qed

text \<open>Three concurrent first-time callers whose attempt succeeds.\<close>

theorem concurrent_first_callers_share_one_attempt_witness:
  "(0::nat) < 3 \<and>
   promises (fst (run (replicate 3 Call @ [Settle 0 (YogaResolved 7 None)]))) ! 0 = Fulfilled \<and>
   (let (w, hs) = run (replicate 3 Call);
        (w', hs') = run (replicate 3 Call @ [Settle 0 (YogaResolved 7 None)])
    in initYoga_calls w = 1 \<and> initSatori_calls w = 0 \<and> promises w = [Pending] \<and>
       hs = replicate 3 (Waits 0) \<and>
       initYoga_calls w' = 1 \<and>
       initSatori_calls w' =
         (case YogaResolved 7 None of YogaResolved y t \<Rightarrow> 1 | YogaRejected err \<Rightarrow> 0) \<and>
       hs' = hs \<and>
       (\<forall>h \<in> set hs'. observed w' h = settles_with (YogaResolved 7 None)) \<and>
       ((\<forall>h \<in> set hs'. observed w' h = Fulfilled) \<or>
        (\<exists>err. \<forall>h \<in> set hs'. observed w' h = Rejected err)) \<and>
       (promises w' ! 0 = Fulfilled \<longrightarrow>
          (\<forall>later. fst (run (replicate 3 Call @ [Settle 0 (YogaResolved 7 None)] @ later)) = w')) \<and>
       (\<forall>y. YogaResolved 7 None = YogaResolved y None \<longrightarrow>
          (\<forall>later.
             initYoga_calls
               (fst (run (replicate 3 Call @ [Settle 0 (YogaResolved 7 None)] @ later))) = 1 \<and>
             initSatori_calls
               (fst (run (replicate 3 Call @ [Settle 0 (YogaResolved 7 None)] @ later))) = 1)))"
proof -
  have pos: "(0::nat) < 3" by simp
  have fulfilled:
    "promises (fst (run (replicate 3 Call @ [Settle 0 (YogaResolved 7 None)]))) ! 0 = Fulfilled"
    by (simp add: run_def step_def ensureYogaInitialized_def resume_def runtime0_def state0_def
        numeral_3_eq_3)
  show ?thesis
    using pos fulfilled
      concurrent_first_callers_share_one_attempt [OF pos, of "YogaResolved 7 None"]
    by blast
qed

section \<open>Batch render: facts about the chunk loop\<close>

lemma batch_loop_exit:
  "\<not> (i < int (length items) \<and> \<not> stopped) \<Longrightarrow>
   batch_loop render items conc ff i stopped results log = Some (results, log)"
  by (subst batch_loop.simps) auto

lemma batch_loop_iter:
  "i < int (length items) \<Longrightarrow>
   batch_loop render items conc ff i False results log =
   batch_loop render items conc ff (i + conc)
     (ff \<and> list_ex (\<lambda>r. \<not> ok (result r)) (render_chunk render i (js_slice items i (i + conc))))
     (results @ render_chunk render i (js_slice items i (i + conc)))
     (log @ map index (render_chunk render i (js_slice items i (i + conc))))"
  by (subst batch_loop.simps) (simp add: Let_def)

lemma js_slice_chunk:
  "i < length xs \<Longrightarrow> 0 < c \<Longrightarrow> js_slice xs (int i) (int i + int c) = take c (drop i xs)"
  by (simp add: js_slice_def Let_def min_def nat_diff_distrib' nat_add_distrib)

lemma length_render_chunk [simp]: "length (render_chunk r a xs) = length xs"
  by (induction xs arbitrary: a) simp_all

lemma render_chunk_append:
  "render_chunk r a (xs @ ys) = render_chunk r a xs @ render_chunk r (a + int (length xs)) ys"
  by (induction xs arbitrary: a) (simp_all add: algebra_simps)

lemma render_chunk_take: "render_chunk r a (take c xs) = take c (render_chunk r a xs)"
proof (induction xs arbitrary: a c)
  case Nil
  show ?case by simp
next
  case (Cons x xs)
  then show ?case by (cases c) simp_all
qed

lemma render_chunk_drop: "render_chunk r (a + int i) (drop i xs) = drop i (render_chunk r a xs)"
proof (induction xs arbitrary: a i)
  case Nil
  show ?case by simp
next
  case (Cons x xs)
  show ?case
  proof (cases i)
    case 0
    then show ?thesis by simp
  next
    case (Suc k)
    have "render_chunk r ((a + 1) + int k) (drop k xs) = drop k (render_chunk r (a + 1) xs)"
      by (rule Cons.IH)
    then show ?thesis using Suc by (simp add: algebra_simps)
  qed
qed

lemma render_chunk_nth:
  "k < length xs \<Longrightarrow> render_chunk r a xs ! k = \<lparr>index = a + int k, result = r (xs ! k)\<rparr>"
proof (induction xs arbitrary: a k)
  case Nil
  then show ?case by simp
next
  case (Cons x xs)
  then show ?case by (cases k) (simp_all add: algebra_simps)
qed

lemma render_chunk_in_order: "render_chunk r 0 xs = in_order r xs"
  by (rule nth_equalityI) (simp_all add: in_order_def render_chunk_nth)


lemma chunk_results:
  assumes "i < length items" "0 < c"
  shows "render_chunk r (int i) (js_slice items (int i) (int i + int c)) =
         take c (drop i (render_chunk r 0 items))"
proof -
  have "render_chunk r (0 + int i) (drop i items) = drop i (render_chunk r 0 items)"
    by (rule render_chunk_drop)
  then show ?thesis using assms by (simp add: js_slice_chunk render_chunk_take)
qed

lemma take_chunk: "take i xs @ take c (drop i xs) = take (i + c) xs"
  by (simp add: take_add)

text \<open>The loop runs to the end when nothing stops it.\<close>

lemma batch_loop_all:
  assumes "0 < c" and "ff \<longrightarrow> (\<forall>r \<in> set (render_chunk r 0 items). ok (result r))"
  shows "batch_loop r items (int c) ff (int i) False
           (take i (render_chunk r 0 items)) (map index (take i (render_chunk r 0 items))) =
         Some (render_chunk r 0 items, map index (render_chunk r 0 items))"
proof (induction "length items - i" arbitrary: i rule: less_induct)
  case less
  let ?all = "render_chunk r 0 items"
  show ?case
  proof (cases "i < length items")
    case False
    then have "take i ?all = ?all" by simp
    then show ?thesis using False by (simp add: batch_loop_exit)
  next
    case True
    let ?chunk = "take c (drop i ?all)"
    have "set ?chunk \<subseteq> set ?all"
      by (meson set_drop_subset set_take_subset subset_trans)
    then have nostop: "(ff \<and> list_ex (\<lambda>r. \<not> ok (result r)) ?chunk) = False"
      using assms(2) by (auto simp: list_ex_iff)
    have "length items - (i + c) < length items - i" using True assms(1) by simp
    then have IH: "batch_loop r items (int c) ff (int (i + c)) False
           (take (i + c) ?all) (map index (take (i + c) ?all)) =
         Some (?all, map index ?all)"
      by (rule less)
    have "batch_loop r items (int c) ff (int i) False (take i ?all) (map index (take i ?all)) =
          batch_loop r items (int c) ff (int i + int c) False
            (take i ?all @ ?chunk) (map index (take i ?all) @ map index ?chunk)"
      using True by (simp only: batch_loop_iter chunk_results [OF True assms(1)] nostop of_nat_less_iff)
    also have "\<dots> = batch_loop r items (int c) ff (int (i + c)) False
            (take (i + c) ?all) (map index (take (i + c) ?all))"
      by (simp add: take_chunk flip: map_append)
    finally show ?thesis using IH by simp
  qed
qed


lemma in_chunk_iff:
  "x \<in> set (take c (drop i xs)) \<longleftrightarrow> (\<exists>k. i \<le> k \<and> k < i + c \<and> k < length xs \<and> x = xs ! k)"
proof
  assume "x \<in> set (take c (drop i xs))"
  then obtain m where m: "m < length (take c (drop i xs))" "x = take c (drop i xs) ! m"
    by (auto simp: in_set_conv_nth)
  then have "i \<le> i + m \<and> i + m < i + c \<and> i + m < length xs \<and> x = xs ! (i + m)"
    by auto
  then show "\<exists>k. i \<le> k \<and> k < i + c \<and> k < length xs \<and> x = xs ! k" by blast
next
  assume "\<exists>k. i \<le> k \<and> k < i + c \<and> k < length xs \<and> x = xs ! k"
  then obtain k where k: "i \<le> k" "k < i + c" "k < length xs" "x = xs ! k" by blast
  then have "k - i < length (take c (drop i xs))" "take c (drop i xs) ! (k - i) = x"
    by auto
  then show "x \<in> set (take c (drop i xs))" by (metis nth_mem)
qed

lemma chunk_quotient:
  fixes c i j :: nat
  assumes "0 < c" "c dvd i" "i \<le> j" "j < i + c"
  shows "(j div c + 1) * c = i + c"
proof -
  obtain q where q: "i = c * q" using assms(2) by (auto elim: dvdE)
  have "j div c = q"
    using assms(1,3,4) q by (intro div_nat_eqI) (simp_all add: algebra_simps)
  then show ?thesis using q by (simp add: algebra_simps)
qed

text \<open>With fail-fast the loop stops after the chunk that holds the first failure.\<close>

lemma batch_loop_stop:
  assumes c: "0 < c" and j: "j < length items"
    and bad: "\<not> ok (result (render_chunk r 0 items ! j))"
    and good: "\<forall>k<j. ok (result (render_chunk r 0 items ! k))"
    and i: "c dvd i" "i \<le> j"
  shows "batch_loop r items (int c) True (int i) False
           (take i (render_chunk r 0 items)) (map index (take i (render_chunk r 0 items))) =
         Some (take ((j div c + 1) * c) (render_chunk r 0 items),
               map index (take ((j div c + 1) * c) (render_chunk r 0 items)))"
  using i
proof (induction "j - i" arbitrary: i rule: less_induct)
  case less
  let ?all = "render_chunk r 0 items"
  let ?chunk = "take c (drop i ?all)"
  have inb: "i < length items" using less.prems j by simp
  have iter: "batch_loop r items (int c) True (int i) False (take i ?all) (map index (take i ?all)) =
          batch_loop r items (int c) True (int (i + c)) (list_ex (\<lambda>r. \<not> ok (result r)) ?chunk)
            (take (i + c) ?all) (map index (take (i + c) ?all))"
    using inb by (simp add: batch_loop_iter chunk_results [OF inb c] take_chunk flip: map_append)
  show ?case
  proof (cases "j < i + c")
    case True
    have "?all ! j \<in> set ?chunk"
      using True less.prems j by (auto simp: in_chunk_iff)
    then have stop: "list_ex (\<lambda>r. \<not> ok (result r)) ?chunk"
      using bad by (auto simp: list_ex_iff)
    have eq: "(j div c + 1) * c = i + c"
      using c less.prems True by (rule chunk_quotient)
    show ?thesis unfolding eq iter using stop by (simp add: batch_loop_exit)
  next
    case False
    have "\<not> list_ex (\<lambda>r. \<not> ok (result r)) ?chunk"
      using False good by (auto simp: list_ex_iff in_chunk_iff)
    moreover have "batch_loop r items (int c) True (int (i + c)) False
           (take (i + c) ?all) (map index (take (i + c) ?all)) =
         Some (take ((j div c + 1) * c) ?all, map index (take ((j div c + 1) * c) ?all))"
      using False less.prems c by (intro less.hyps) simp_all
    ultimately show ?thesis by (simp add: iter)
  qed
qed

lemma batch_loop_never_settles:
  assumes "batch_loop r items conc ff i stopped results log = Some y"
  shows "\<not> (conc = 0 \<and> i < int (length items) \<and> \<not> stopped)"
proof (rule batch_loop.raw_induct
    [where P = "\<lambda>r items conc ff i stopped results log y.
                  \<not> (conc = 0 \<and> i < int (length items) \<and> \<not> stopped)", OF _ assms])
  fix f :: "('a \<Rightarrow> og_result) \<Rightarrow> 'a list \<Rightarrow> int \<Rightarrow> bool \<Rightarrow> int \<Rightarrow> bool \<Rightarrow>
     batch_result list \<Rightarrow> int list \<Rightarrow> (batch_result list \<times> int list) option"
  fix r items conc ff i stopped results log y
  assume IH: "\<And>r items conc ff i stopped results log y.
      f r items conc ff i stopped results log = Some y \<Longrightarrow>
      \<not> (conc = 0 \<and> i < int (length items) \<and> \<not> stopped)"
  assume body: "(if i < int (length items) \<and> \<not> stopped
      then let chunkResults = render_chunk r i (js_slice items i (i + conc))
           in f r items conc ff (i + conc)
               (ff \<and> list_ex (\<lambda>r. \<not> ok (result r)) chunkResults)
               (results @ chunkResults) (log @ map index chunkResults)
      else Some (results, log)) = Some y"
  show "\<not> (conc = 0 \<and> i < int (length items) \<and> \<not> stopped)"
  proof
    assume a: "conc = 0 \<and> i < int (length items) \<and> \<not> stopped"
    then have "js_slice items i (i + conc) = []" by (simp add: js_slice_def Let_def)
    then have "f r items conc ff i False results log = Some y"
      using body a by (simp add: Let_def)
    then have "\<not> (conc = 0 \<and> i < int (length items) \<and> \<not> False)" by (rule IH)
    then show False using a by simp
  qed
qed


lemma index_lower: "x \<in> set (render_chunk r a xs) \<Longrightarrow> a \<le> index x"
  by (induction xs arbitrary: a) force+

lemma sorted_render_chunk: "sorted (map index (render_chunk r a xs))"
  by (induction xs arbitrary: a) (force dest: index_lower)+

lemma sorted_take_chunk: "sorted (map index (take m (render_chunk r a xs)))"
  using sorted_render_chunk [of r a xs] by (simp add: sorted_wrt_take flip: take_map)

lemma generateOGBatch_settled:
  assumes "yoga_ready e = None" "fonts_or_default e (fonts opts) = Inr dfs"
    and "batch_loop (generateItem e opts dfs) items (nullish (concurrency opts) 5)
           (nullish (failFast opts) False) 0 False [] [] =
         Some (take m (render_chunk (generateItem e opts dfs) 0 items), log)"
  shows "generateOGBatch e items opts =
         Some (Inr \<lparr>returned = take m (in_order (generateItem e opts dfs) items), scheduled = log\<rparr>)"
  using assms sorted_take_chunk [of m "generateItem e opts dfs" 0 items]
  by (simp add: generateOGBatch_def sort_key_id_if_sorted render_chunk_in_order)

lemma in_order_nth:
  "k < length items \<Longrightarrow> in_order r items ! k = \<lparr>index = int k, result = r (items ! k)\<rparr>"
  by (simp add: in_order_def)

lemma length_in_order [simp]: "length (in_order r items) = length items"
  by (simp add: in_order_def)

text \<open>
  Claim C3, amended. Let the engine be ready and the default fonts be there, and let
  \<^verbatim>\<open>concurrency\<close> be at least one. Then \<^verbatim>\<open>generateOGBatch\<close> settles with an array in
  which position \<open>k\<close> holds the result of item \<open>k\<close> under index \<open>k\<close>, so the array is
  sorted by index; the renders that were started are exactly those whose results are
  returned. Without \<^verbatim>\<open>failFast\<close>, or when no item fails, the array is as long as the
  input. With \<^verbatim>\<open>failFast\<close>, if \<open>j\<close> is the first failing item, the array holds the items
  of the chunks up to and including the chunk of \<open>j\<close>: \<open>(j div c + 1) * c\<close> of them, or
  all if there are fewer. (The list may also be empty.)
\<close>

theorem generateOGBatch_length_and_order:
  assumes ready: "yoga_ready e = None"
    and fonts: "fonts_or_default e (fonts opts) = Inr dfs"
    and conc: "1 \<le> nullish (concurrency opts) 5"
  shows "\<exists>run. generateOGBatch e items opts = Some (Inr run) \<and>
           length (returned run) \<le> length items \<and>
           (\<forall>k < length (returned run).
              returned run ! k = \<lparr>index = int k, result = generateItem e opts dfs (items ! k)\<rparr>) \<and>
           sorted (map index (returned run)) \<and>
           scheduled run = map index (returned run) \<and>
           (\<not> nullish (failFast opts) False \<or>
            (\<forall>k < length items. ok (generateItem e opts dfs (items ! k)))
              \<longrightarrow> length (returned run) = length items) \<and>
           (\<forall>j. nullish (failFast opts) False \<and> j < length items \<and>
                \<not> ok (generateItem e opts dfs (items ! j)) \<and>
                (\<forall>k < j. ok (generateItem e opts dfs (items ! k)))
              \<longrightarrow> length (returned run) =
                    min (length items) ((j div nat (nullish (concurrency opts) 5) + 1) *
                                        nat (nullish (concurrency opts) 5)))"
proof -
  let ?r = "generateItem e opts dfs"
  let ?all = "render_chunk ?r 0 items"
  let ?ff = "nullish (failFast opts) False"
  define c where "c = nat (nullish (concurrency opts) 5)"
  have c: "0 < c" "nullish (concurrency opts) 5 = int c" using conc by (simp_all add: c_def)
  let ?bad = "\<lambda>j. j < length items \<and> \<not> ok (?r (items ! j))"
  have ex_m: "\<exists>m. batch_loop ?r items (int c) ?ff 0 False [] [] =
                  Some (take m ?all, map index (take m ?all)) \<and>
               (\<not> ?ff \<or> (\<forall>k < length items. ok (?r (items ! k))) \<longrightarrow> length items \<le> m) \<and>
               (\<forall>j. ?ff \<and> ?bad j \<and> (\<forall>k < j. ok (?r (items ! k))) \<longrightarrow> m = (j div c + 1) * c)"
  proof (cases "?ff \<and> (\<exists>j. ?bad j)")
    case False
    then have "?ff \<longrightarrow> (\<forall>x \<in> set ?all. ok (result x))"
      by (auto simp: in_set_conv_nth render_chunk_nth)
    with c(1) have "batch_loop ?r items (int c) ?ff (int 0) False
           (take 0 ?all) (map index (take 0 ?all)) = Some (?all, map index ?all)"
      by (rule batch_loop_all)
    then have "batch_loop ?r items (int c) ?ff 0 False [] [] =
          Some (take (length items) ?all, map index (take (length items) ?all))"
      by simp
    then show ?thesis using False by blast
  next
    case True
    then obtain j0 where "?bad j0" by blast
    then obtain j where j: "?bad j" "\<forall>k < j. \<not> ?bad k"
      using exists_least_iff [of ?bad] by blast
    have good: "\<forall>k < j. ok (result (?all ! k))"
      using j by (auto simp: render_chunk_nth)
    have bad: "\<not> ok (result (?all ! j))"
      using j by (simp add: render_chunk_nth)
    have "batch_loop ?r items (int c) True (int 0) False
           (take 0 ?all) (map index (take 0 ?all)) =
         Some (take ((j div c + 1) * c) ?all, map index (take ((j div c + 1) * c) ?all))"
      using c(1) j(1) bad good by (intro batch_loop_stop) simp_all
    then have run: "batch_loop ?r items (int c) ?ff 0 False [] [] =
         Some (take ((j div c + 1) * c) ?all, map index (take ((j div c + 1) * c) ?all))"
      using True by simp
    have uniq: "j' = j" if "?bad j'" "\<forall>k < j'. ok (?r (items ! k))" for j'
    proof (rule ccontr)
      assume "j' \<noteq> j"
      then consider "j' < j" | "j < j'" by linarith
      then show False
      proof cases
        case 1
        then show ?thesis using j(2) that(1) by blast
      next
        case 2
        then show ?thesis using j(1) that(2) by blast
      qed
    qed
    show ?thesis using run True uniq by blast
  qed
  then obtain m where m: "batch_loop ?r items (int c) ?ff 0 False [] [] =
                  Some (take m ?all, map index (take m ?all))"
      "\<not> ?ff \<or> (\<forall>k < length items. ok (?r (items ! k))) \<longrightarrow> length items \<le> m"
      "\<forall>j. ?ff \<and> ?bad j \<and> (\<forall>k < j. ok (?r (items ! k))) \<longrightarrow> m = (j div c + 1) * c"
    by blast
  let ?run = "\<lparr>returned = take m (in_order ?r items),
               scheduled = map index (take m ?all)\<rparr>"
  have settled: "generateOGBatch e items opts = Some (Inr ?run)"
    using ready fonts m(1) c(2) by (intro generateOGBatch_settled) simp_all
  have "sorted (map index (returned ?run))"
    using sorted_take_chunk [of m ?r 0 items] by (simp add: render_chunk_in_order)
  moreover have "\<forall>k < length (returned ?run).
      returned ?run ! k = \<lparr>index = int k, result = ?r (items ! k)\<rparr>"
    by (simp add: in_order_nth)
  moreover have "scheduled ?run = map index (returned ?run)"
    by (simp add: render_chunk_in_order)
  moreover have "length (returned ?run) = min (length items) m"
    by (simp add: min.commute)
  ultimately show ?thesis
    using settled m(2,3) unfolding c_def [symmetric]
    by (intro exI [of _ ?run]) (auto simp: min_def)
qed


lemma sample_fonts: "fonts_or_default sample_env None = Inr [bitter []]"
  by (simp add: fonts_or_default_def sample_env_def)

lemma sample_render:
  "generateItem sample_env opts dfs (html_item s) =
     (if CHR 0x08 \<in> set s then OGError (SVGGenerationError ''Failed to parse HTML element'')
      else OGSuccess ''<svg/>'')"
  by (simp add: generateItem_def generateItem_try_def resolve_element_def sample_env_def html_item_def)

lemma unparsable_backspace [simp]: "CHR 0x08 \<in> set unparsable"
  by (simp add: unparsable_def)

text \<open>
  Claim C3 as stated holds for every non-empty list whatever the options. With
  \<^verbatim>\<open>concurrency: 0\<close> the loop variable stays at 0, every chunk is empty, and the
  promise never settles: no list is returned.
\<close>

theorem generateOGBatch_zero_concurrency_never_settles:
  "generateOGBatch sample_env [html_item ''<div>ok</div>''] (sample_batch_options 0 False) = None"
proof -
  have "batch_loop r [html_item ''<div>ok</div>''] 0 False 0 False [] [] = None" for r
  proof (cases "batch_loop r [html_item ''<div>ok</div>''] 0 False 0 False [] []")
    case None
    then show ?thesis .
  next
    case (Some y)
    then show ?thesis using batch_loop_never_settles [OF Some] by simp
  qed
  then show ?thesis
    by (simp add: generateOGBatch_def sample_batch_options_def sample_env_def
        fonts_or_default_def nullish_def)
qed

text \<open>
  Five items in chunks of two with \<^verbatim>\<open>failFast\<close>; the third item (index 2) does not parse.
  The second chunk is the first failing one, so four results come back.
\<close>

theorem generateOGBatch_length_and_order_witness:
  "yoga_ready sample_env = None \<and>
   fonts_or_default sample_env (fonts (sample_batch_options 2 True)) = Inr [bitter []] \<and>
   1 \<le> nullish (concurrency (sample_batch_options 2 True)) 5 \<and>
   generateOGBatch sample_env
     [html_item ''<div>ok</div>'', html_item ''<div>ok</div>'', html_item unparsable,
      html_item ''<div>ok</div>'', html_item ''<div>ok</div>'']
     (sample_batch_options 2 True) =
   Some (Inr \<lparr>returned =
     [\<lparr>index = 0, result = OGSuccess ''<svg/>''\<rparr>, \<lparr>index = 1, result = OGSuccess ''<svg/>''\<rparr>,
      \<lparr>index = 2, result = OGError (SVGGenerationError ''Failed to parse HTML element'')\<rparr>,
      \<lparr>index = 3, result = OGSuccess ''<svg/>''\<rparr>], scheduled = [0, 1, 2, 3]\<rparr>)"
proof -
  let ?items = "[html_item ''<div>ok</div>'', html_item ''<div>ok</div>'', html_item unparsable,
      html_item ''<div>ok</div>'', html_item ''<div>ok</div>'']"
  let ?opts = "sample_batch_options 2 True"
  let ?r = "generateItem sample_env ?opts [bitter []]"
  have ready: "yoga_ready sample_env = None" by (simp add: sample_env_def)
  have fonts: "fonts_or_default sample_env (fonts ?opts) = Inr [bitter []]"
    by (simp add: sample_batch_options_def sample_fonts)
  have conc: "1 \<le> nullish (concurrency ?opts) 5"
    by (simp add: sample_batch_options_def nullish_def)
  obtain run where run: "generateOGBatch sample_env ?items ?opts = Some (Inr run)"
      and len: "length (returned run) \<le> length ?items"
      and nth: "\<forall>k < length (returned run).
          returned run ! k = \<lparr>index = int k, result = ?r (?items ! k)\<rparr>"
      and sched: "scheduled run = map index (returned run)"
      and stop: "\<forall>j. nullish (failFast ?opts) False \<and> j < length ?items \<and>
                \<not> ok (?r (?items ! j)) \<and> (\<forall>k < j. ok (?r (?items ! k)))
              \<longrightarrow> length (returned run) =
                    min (length ?items) ((j div nat (nullish (concurrency ?opts) 5) + 1) *
                                        nat (nullish (concurrency ?opts) 5))"
    using generateOGBatch_length_and_order [OF ready fonts conc, of ?items] by blast
  have "nullish (failFast ?opts) False \<and> 2 < length ?items \<and>
          \<not> ok (?r (?items ! 2)) \<and> (\<forall>k < 2. ok (?r (?items ! k)))"
    by (simp add: sample_batch_options_def nullish_def sample_render less_Suc_eq numeral_2_eq_2)
  then have "length (returned run) =
      min (length ?items) ((2 div nat (nullish (concurrency ?opts) 5) + 1) *
                                        nat (nullish (concurrency ?opts) 5))"
    using stop by blast
  then have l4: "length (returned run) = 4"
    by (simp add: sample_batch_options_def nullish_def)
  have "returned run = [returned run ! 0, returned run ! 1, returned run ! 2, returned run ! 3]"
    using l4 by (intro nth_equalityI) (auto simp: less_Suc_eq numeral_Bit0 numeral_Bit1 nth_Cons')
  also have "\<dots> = [\<lparr>index = 0, result = OGSuccess ''<svg/>''\<rparr>, \<lparr>index = 1, result = OGSuccess ''<svg/>''\<rparr>,
      \<lparr>index = 2, result = OGError (SVGGenerationError ''Failed to parse HTML element'')\<rparr>,
      \<lparr>index = 3, result = OGSuccess ''<svg/>''\<rparr>]"
    using nth l4 by (simp add: sample_render)
  finally have ret: "returned run = [\<lparr>index = 0, result = OGSuccess ''<svg/>''\<rparr>, \<lparr>index = 1, result = OGSuccess ''<svg/>''\<rparr>,
      \<lparr>index = 2, result = OGError (SVGGenerationError ''Failed to parse HTML element'')\<rparr>,
      \<lparr>index = 3, result = OGSuccess ''<svg/>''\<rparr>]" .
  have "run = \<lparr>returned = returned run, scheduled = scheduled run\<rparr>" by simp
  then have "run = \<lparr>returned = [\<lparr>index = 0, result = OGSuccess ''<svg/>''\<rparr>, \<lparr>index = 1, result = OGSuccess ''<svg/>''\<rparr>,
      \<lparr>index = 2, result = OGError (SVGGenerationError ''Failed to parse HTML element'')\<rparr>,
      \<lparr>index = 3, result = OGSuccess ''<svg/>''\<rparr>], scheduled = [0, 1, 2, 3]\<rparr>"
    using ret sched by simp
  then show ?thesis using ready fonts conc run by simp
qed


text \<open>
  Claim C5. Six items, \<^verbatim>\<open>concurrency = 2\<close>, \<^verbatim>\<open>failFast = true\<close>, and the item at index 1
  fails (the engine being ready and the default fonts there): the batch returns exactly
  the results of the items 0 and 1, and only the renders 0 and 1 were ever started.
\<close>

theorem generateOGBatch_fail_fast_six_items:
  assumes six: "length items = 6"
    and ready: "yoga_ready e = None"
    and fonts: "fonts_or_default e (fonts opts) = Inr dfs"
    and conc: "concurrency opts = Some 2"
    and ff: "failFast opts = Some True"
    and fails: "\<not> ok (generateItem e opts dfs (items ! 1))"
  shows "generateOGBatch e items opts =
     Some (Inr \<lparr>returned = [\<lparr>index = 0, result = generateItem e opts dfs (items ! 0)\<rparr>,
                             \<lparr>index = 1, result = generateItem e opts dfs (items ! 1)\<rparr>],
                scheduled = [0, 1]\<rparr>)"
proof -
  let ?r = "generateItem e opts dfs"
  obtain a b rest where items: "items = a # b # rest"
    using six by (cases items; cases "tl items") auto
  have slice: "js_slice (a # b # rest) 0 2 = [a, b]"
    by (simp add: js_slice_def Let_def)
  have "batch_loop ?r items 2 True 0 False [] [] =
        batch_loop ?r items 2 True (0 + 2)
          (True \<and> list_ex (\<lambda>r. \<not> ok (result r)) (render_chunk ?r 0 (js_slice items 0 (0 + 2))))
          ([] @ render_chunk ?r 0 (js_slice items 0 (0 + 2)))
          ([] @ map index (render_chunk ?r 0 (js_slice items 0 (0 + 2))))"
    using six by (intro batch_loop_iter) simp
  also have "\<dots> = batch_loop ?r items 2 True 2 True
      [\<lparr>index = 0, result = ?r a\<rparr>, \<lparr>index = 1, result = ?r b\<rparr>] [0, 1]"
    using fails by (simp add: slice items)
  also have "\<dots> = Some ([\<lparr>index = 0, result = ?r a\<rparr>, \<lparr>index = 1, result = ?r b\<rparr>], [0, 1])"
    by (rule batch_loop_exit) simp
  finally show ?thesis
    using ready fonts conc ff by (simp add: generateOGBatch_def nullish_def items)
qed

text \<open>Six HTML items of which the second does not parse.\<close>

theorem generateOGBatch_fail_fast_six_items_witness:
  "length [html_item ''<div>ok</div>'', html_item unparsable, html_item ''<div>ok</div>'',
           html_item ''<div>ok</div>'', html_item ''<div>ok</div>'', html_item ''<div>ok</div>''] = 6 \<and>
   yoga_ready sample_env = None \<and>
   fonts_or_default sample_env (fonts (sample_batch_options 2 True)) = Inr [bitter []] \<and>
   concurrency (sample_batch_options 2 True) = Some 2 \<and>
   failFast (sample_batch_options 2 True) = Some True \<and>
   \<not> ok (generateItem sample_env (sample_batch_options 2 True) [bitter []] (html_item unparsable)) \<and>
   generateOGBatch sample_env
     [html_item ''<div>ok</div>'', html_item unparsable, html_item ''<div>ok</div>'',
      html_item ''<div>ok</div>'', html_item ''<div>ok</div>'', html_item ''<div>ok</div>'']
     (sample_batch_options 2 True) =
   Some (Inr \<lparr>returned =
     [\<lparr>index = 0, result = OGSuccess ''<svg/>''\<rparr>,
      \<lparr>index = 1, result = OGError (SVGGenerationError ''Failed to parse HTML element'')\<rparr>],
     scheduled = [0, 1]\<rparr>)"
proof -
  let ?items = "[html_item ''<div>ok</div>'', html_item unparsable, html_item ''<div>ok</div>'',
      html_item ''<div>ok</div>'', html_item ''<div>ok</div>'', html_item ''<div>ok</div>'']"
  let ?opts = "sample_batch_options 2 True"
  have six: "length ?items = 6" by simp
  have ready: "yoga_ready sample_env = None" by (simp add: sample_env_def)
  have fonts: "fonts_or_default sample_env (fonts ?opts) = Inr [bitter []]"
    by (simp add: sample_batch_options_def sample_fonts)
  have conc: "concurrency ?opts = Some 2" by (simp add: sample_batch_options_def)
  have ff: "failFast ?opts = Some True" by (simp add: sample_batch_options_def)
  have fails: "\<not> ok (generateItem sample_env ?opts [bitter []] (?items ! 1))"
    by (simp add: sample_render)
  show ?thesis
    using six ready fonts conc ff fails generateOGBatch_fail_fast_six_items [OF six ready fonts conc ff fails]
    by (simp add: sample_render)
qed

text \<open>
  Claim C4 fails for two of the three entry points. When the awaited readiness check
  rejects with \<open>err\<close>, \<^verbatim>\<open>generateOG\<close> catches it and returns the error variant; but in
  \<^verbatim>\<open>generateOGBatch\<close> and \<^verbatim>\<open>OGStream\<close> the \<^verbatim>\<open>await\<close> stands outside every \<^verbatim>\<open>try\<close>: the
  promise of the batch rejects with \<open>err\<close>, and the stream throws \<open>err\<close> into its consumer
  before it has yielded anything.
\<close>

theorem engine_init_failure_escapes_batch_and_stream:
  "generateOG (e\<lparr>yoga_ready := Some err\<rparr>) src opts = OGError (as_error err) \<and>
   generateOGBatch (e\<lparr>yoga_ready := Some err\<rparr>) items bopts = Some (Inl err) \<and>
   OGStream (e\<lparr>yoga_ready := Some err\<rparr>) latency items sopts = \<lparr>trace = [], threw = Some err\<rparr>"
  by (simp add: generateOG_def generateOG_try_def generateOGBatch_def OGStream_def)

text \<open>
  What \<^verbatim>\<open>generateOG\<close> does at a failed parse: when the engine is ready and the parser
  yields \<^verbatim>\<open>null\<close> for the string, it returns the error variant, carrying an
  \<^verbatim>\<open>SVGGenerationError\<close> with the message "Failed to parse HTML element". Nothing is
  thrown: \<^verbatim>\<open>generateOG\<close> is a total function into \<open>og_result\<close>, its \<^verbatim>\<open>catch\<close> covering the
  whole body.
\<close>

lemma generateOG_parse_null_is_error_result:
  assumes "yoga_ready e = None" and "parseHtml e s = Inr None"
  shows "generateOG e (Html s) opts = OGError (SVGGenerationError ''Failed to parse HTML element'')"
  using assms by (simp add: generateOG_def generateOG_try_def resolve_element_def)

text \<open>
  Claim C7 fails on the code in the kind of the error. At a string for which the parse
  yields \<^verbatim>\<open>null\<close>, the call does return an error variant with a message and throws
  nothing, but the error is an \<^verbatim>\<open>SVGGenerationError\<close> (the class of errors.ts for a failed
  SVG generation), not the \<^verbatim>\<open>HTMLParseError\<close> that errors.ts provides for a failed HTML
  parse.
\<close>

theorem parse_failure_is_not_HTMLParseError:
  "yoga_ready sample_env = None \<and> parseHtml sample_env unparsable = Inr None \<and>
   generateOG sample_env (Html unparsable) no_options =
     OGError (JsError ''SVGGenerationError'' ''Failed to parse HTML element'') \<and>
   generateOG sample_env (Html unparsable) no_options \<noteq>
     OGError (HTMLParseError ''Failed to parse HTML element'')"
  by (simp add: generateOG_def generateOG_try_def resolve_element_def sample_env_def
      SVGGenerationError_def HTMLParseError_def unparsable_def)

section \<open>Stream render: facts about the window\<close>

lemma outcome_start_render [simp]:
  "outcome (start_render r lat now x idx) = \<lparr>index = idx, result = r x\<rparr>"
  by (simp add: start_render_def)

lemma yielded_append: "yielded (xs @ ys) = yielded xs @ yielded ys"
  by (induction xs rule: yielded.induct) simp_all

lemma started_append: "started (xs @ ys) = started xs @ started ys"
  by (induction xs rule: started.induct) simp_all

lemma yielded_starts: "yielded (map (\<lambda>t. Start (f t)) ts) = []"
  by (induction ts) simp_all

lemma started_starts: "started (map (\<lambda>t. Start (f t)) ts) = map f ts"
  by (induction ts) simp_all

lemma drain_yielded:
  "(pending = [] \<longrightarrow> rest = []) \<Longrightarrow>
   yielded (drain r lat now pending rest idx) = map outcome pending @ render_chunk r idx rest"
  by (induction r lat now pending rest idx rule: drain.induct) simp_all

lemma drain_started:
  "(pending = [] \<longrightarrow> rest = []) \<Longrightarrow>
   started (drain r lat now pending rest idx) = map index (render_chunk r idx rest)"
  by (induction r lat now pending rest idx rule: drain.induct) simp_all

lemma fill_keeps:
  "fill r lat i pf xs idx pending = (rest, idx', pending') \<Longrightarrow>
   map outcome pending' @ render_chunk r idx' rest = map outcome pending @ render_chunk r idx xs"
proof (induction xs arbitrary: i idx pending)
  case Nil
  then show ?case by simp
next
  case (Cons x xs)
  show ?case
  proof (cases "i < pf")
    case True
    then have "fill r lat (i + 1) pf xs (idx + 1) (pending @ [start_render r lat 0 x idx]) =
        (rest, idx', pending')"
      using Cons.prems by simp
    then show ?thesis using Cons.IH by fastforce
  next
    case False
    then show ?thesis using Cons.prems by auto
  qed
qed

lemma fill_nonempty:
  "fill r lat i pf xs idx pending = (rest, idx', pending') \<Longrightarrow>
   pending \<noteq> [] \<or> i < pf \<Longrightarrow> pending' = [] \<Longrightarrow> rest = []"
proof (induction xs arbitrary: i idx pending)
  case Nil
  then show ?case by simp
next
  case (Cons x xs)
  show ?case
  proof (cases "i < pf")
    case True
    then have "fill r lat (i + 1) pf xs (idx + 1) (pending @ [start_render r lat 0 x idx]) =
        (rest, idx', pending')"
      using Cons.prems(1) by simp
    then show ?thesis using Cons.IH Cons.prems(3) by blast
  next
    case False
    then show ?thesis using Cons.prems by auto
  qed
qed

text \<open>
  The window once it is reached. Let the engine be ready and the default fonts be there,
  and let the prefetch window be at least one. Then, whatever the latencies of the
  individual renders, a consumer that drains \<^verbatim>\<open>OGStream\<close> is given exactly one result per
  item, the result of item \<open>k\<close> under index \<open>k\<close> at position \<open>k\<close>, and the generator
  completes without throwing. The results are yielded in the order in which their
  renders were started: what is awaited is always the head of the queue, the
  earliest-started render in flight.
\<close>

lemma OGStream_yields_in_input_order:
  assumes ready: "yoga_ready e = None"
    and fonts: "fonts_or_default e (fonts opts) = Inr dfs"
    and window: "1 \<le> nullish (prefetch opts) 3"
  shows "threw (OGStream e latency items opts) = None \<and>
         yielded (trace (OGStream e latency items opts)) = in_order (generateItem e opts dfs) items \<and>
         started (trace (OGStream e latency items opts)) =
           map index (yielded (trace (OGStream e latency items opts)))"
proof -
  let ?r = "generateItem e opts dfs"
  obtain rest idx pending where f:
    "fill ?r latency 0 (nullish (prefetch opts) 3) items 0 [] = (rest, idx, pending)"
    by (cases "fill ?r latency 0 (nullish (prefetch opts) 3) items 0 []") auto
  have keep: "map outcome pending @ render_chunk ?r idx rest = render_chunk ?r 0 items"
    using fill_keeps [OF f] by simp
  have ne: "pending = [] \<longrightarrow> rest = []"
    using fill_nonempty [OF f] window by auto
  have tr: "trace (OGStream e latency items opts) =
      map (\<lambda>t. Start (index (outcome t))) pending @ drain ?r latency 0 pending rest idx"
    and th: "threw (OGStream e latency items opts) = None"
    using ready fonts f by (simp_all add: OGStream_def)
  have y: "yielded (trace (OGStream e latency items opts)) = render_chunk ?r 0 items"
    by (simp add: tr yielded_append yielded_starts drain_yielded [OF ne] keep)
  have s: "started (trace (OGStream e latency items opts)) = map index (render_chunk ?r 0 items)"
  proof -
    have "map index (map outcome pending @ render_chunk ?r idx rest) =
          map index (render_chunk ?r 0 items)"
      by (simp only: keep)
    then show ?thesis
      by (simp add: tr started_append started_starts drain_started [OF ne] comp_def)
  qed
  show ?thesis using th y s by (simp add: render_chunk_in_order)
qed

text \<open>
  Three items, window 2, the first render slow: render 1 has settled at time 1 and
  render 0 at time 10, yet result 0 is yielded first (at time 10) and result 1 after it.
\<close>

lemma OGStream_yields_in_input_order_example:
  "yoga_ready sample_env = None \<and>
   fonts_or_default sample_env (fonts (sample_stream_options 2)) = Inr [bitter []] \<and>
   1 \<le> nullish (prefetch (sample_stream_options 2)) 3 \<and>
   slow_first 0 = 10 \<and> slow_first 1 = 1 \<and>
   threw (OGStream sample_env slow_first
     [html_item ''<div>ok</div>'', html_item unparsable, html_item ''<div>ok</div>'']
     (sample_stream_options 2)) = None \<and>
   yielded (trace (OGStream sample_env slow_first
     [html_item ''<div>ok</div>'', html_item unparsable, html_item ''<div>ok</div>'']
     (sample_stream_options 2))) =
     [\<lparr>index = 0, result = OGSuccess ''<svg/>''\<rparr>,
      \<lparr>index = 1, result = OGError (SVGGenerationError ''Failed to parse HTML element'')\<rparr>,
      \<lparr>index = 2, result = OGSuccess ''<svg/>''\<rparr>] \<and>
   started (trace (OGStream sample_env slow_first
     [html_item ''<div>ok</div>'', html_item unparsable, html_item ''<div>ok</div>'']
     (sample_stream_options 2))) = [0, 1, 2] \<and>
   yield_times (trace (OGStream sample_env slow_first
     [html_item ''<div>ok</div>'', html_item unparsable, html_item ''<div>ok</div>'']
     (sample_stream_options 2))) = [10, 10, 11]"
proof -
  let ?items = "[html_item ''<div>ok</div>'', html_item unparsable, html_item ''<div>ok</div>'']"
  let ?opts = "sample_stream_options 2"
  have ready: "yoga_ready sample_env = None" by (simp add: sample_env_def)
  have fonts: "fonts_or_default sample_env (fonts ?opts) = Inr [bitter []]"
    by (simp add: sample_stream_options_def sample_fonts)
  have window: "1 \<le> nullish (prefetch ?opts) 3"
    by (simp add: sample_stream_options_def nullish_def)
  have lat: "slow_first 0 = 10 \<and> slow_first 1 = 1" by (simp add: slow_first_def)
  have expected: "in_order (generateItem sample_env ?opts [bitter []]) ?items =
     [\<lparr>index = 0, result = OGSuccess ''<svg/>''\<rparr>,
      \<lparr>index = 1, result = OGError (SVGGenerationError ''Failed to parse HTML element'')\<rparr>,
      \<lparr>index = 2, result = OGSuccess ''<svg/>''\<rparr>]"
    by (simp add: in_order_def sample_render upt_rec)
  have times: "yield_times (trace (OGStream sample_env slow_first ?items ?opts)) = [10, 10, 11]"
    using ready fonts
    by (simp add: OGStream_def sample_stream_options_def nullish_def start_render_def slow_first_def)
  show ?thesis
    using ready fonts window lat times OGStream_yields_in_input_order [OF ready fonts window, of slow_first ?items]
    by (simp add: expected)
qed

text \<open>
  Claim C2 fails on the code. The claim holds for every item sequence and every window
  of at least one, but \<^verbatim>\<open>OGStream\<close> awaits the readiness check and the default font
  before the pipeline and outside any \<^verbatim>\<open>try\<close>. With two items and a window of two, when
  the readiness check rejects, or when the default font cannot be loaded, the generator
  throws into its consumer before any render is started: nothing is yielded, where the
  claim has one result per item.
\<close>

theorem OGStream_throws_before_yielding:
  "OGStream engine_failing_env slow_first
     [html_item ''<div>ok</div>'', html_item ''<div>ok</div>''] (sample_stream_options 2) =
     \<lparr>trace = [], threw = Some (JsError ''Error'' ''boom'')\<rparr> \<and>
   yielded (trace (OGStream engine_failing_env slow_first
     [html_item ''<div>ok</div>'', html_item ''<div>ok</div>''] (sample_stream_options 2))) = [] \<and>
   OGStream font_failing_env slow_first
     [html_item ''<div>ok</div>'', html_item ''<div>ok</div>''] (sample_stream_options 2) =
     \<lparr>trace = [], threw = Some (FontLoadError ''Could not find font URL for Bitter'')\<rparr> \<and>
   yielded (trace (OGStream font_failing_env slow_first
     [html_item ''<div>ok</div>'', html_item ''<div>ok</div>''] (sample_stream_options 2))) = [] \<and>
   1 \<le> nullish (prefetch (sample_stream_options 2)) 3"
  by (simp add: OGStream_def engine_failing_env_def font_failing_env_def sample_env_def
      sample_stream_options_def fonts_or_default_def nullish_def)

text \<open>
  Claim C10. With a prefetch window of zero or less the initial fill pulls no item and
  starts no render, so the queue stays empty and the sliding-window loop is not entered:
  the run of \<^verbatim>\<open>OGStream\<close> contains no event at all (no render is started, nothing is
  yielded), whatever the items are, and when the engine is ready and the default fonts
  are there the generator completes at once without throwing.
\<close>

theorem OGStream_nonpositive_prefetch_yields_nothing:
  assumes window: "nullish (prefetch opts) 3 \<le> 0"
  shows "fill render latency 0 (nullish (prefetch opts) 3) items 0 [] = (items, 0, []) \<and>
         drain render latency 0 [] items 0 = [] \<and>
         trace (OGStream e latency items opts) = [] \<and>
         (yoga_ready e = None \<and> (\<exists>dfs. fonts_or_default e (fonts opts) = Inr dfs) \<longrightarrow>
            OGStream e latency items opts = \<lparr>trace = [], threw = None\<rparr>)"
proof -
  have f: "fill r latency 0 (nullish (prefetch opts) 3) items 0 [] = (items, 0, [])" for r
    using window by (cases items) simp_all
  have t: "trace (OGStream e latency items opts) = []"
    by (simp add: OGStream_def f split: option.split sum.split)
  have "OGStream e latency items opts = \<lparr>trace = [], threw = None\<rparr>"
    if "yoga_ready e = None" "fonts_or_default e (fonts opts) = Inr dfs" for dfs
    using that by (simp add: OGStream_def f)
  then show ?thesis using f t by auto
qed

text \<open>Two items and \<^verbatim>\<open>prefetch: 0\<close>, in an environment where everything else works.\<close>

theorem OGStream_nonpositive_prefetch_yields_nothing_witness:
  "nullish (prefetch (sample_stream_options 0)) 3 \<le> 0 \<and>
   yoga_ready sample_env = None \<and>
   fonts_or_default sample_env (fonts (sample_stream_options 0)) = Inr [bitter []] \<and>
   trace (OGStream sample_env slow_first [html_item ''<div>ok</div>'', html_item unparsable]
     (sample_stream_options 0)) = [] \<and>
   OGStream sample_env slow_first [html_item ''<div>ok</div>'', html_item unparsable]
     (sample_stream_options 0) = \<lparr>trace = [], threw = None\<rparr>"
proof -
  let ?opts = "sample_stream_options 0"
  have window: "nullish (prefetch ?opts) 3 \<le> 0"
    by (simp add: sample_stream_options_def nullish_def)
  have ready: "yoga_ready sample_env = None" by (simp add: sample_env_def)
  have fonts: "fonts_or_default sample_env (fonts ?opts) = Inr [bitter []]"
    by (simp add: sample_stream_options_def sample_fonts)
  show ?thesis
    using window ready fonts
      OGStream_nonpositive_prefetch_yields_nothing
        [OF window, where latency = slow_first and e = sample_env
           and items = "[html_item ''<div>ok</div>'', html_item unparsable]"
           and render = "generateItem sample_env ?opts [bitter []]"]
    by blast
qed

section \<open>Style attributes: where the splitting expression cuts\<close>

text \<open>
  The style of the example in the specification has no semicolon inside parentheses;
  its two entries come out intact, commas and parentheses included.
\<close>

lemma gradient_style_survives:
  "style_entries camelCase ''color: red; background: linear-gradient(90deg, red, blue)'' =
     [(camelCase ''color'', ''red''), (camelCase ''background'', ''linear-gradient(90deg, red, blue)'')]"
  by (simp add: style_entries_def cleanStyle_def style_entry_def List.map_filter_def trim_def
      js_space_def line_terminator_def sanitizeJSON_def replace_all_def dq_def bs_def)

text \<open>
  Claim C6 fails on the code. The lookahead of the splitting expression only asks
  whether a closing parenthesis comes before the next opening one. A semicolon inside
  \<^verbatim>\<open>url(...)\<close> that is followed by a nested \<^verbatim>\<open>rgb(...)\<close> is therefore taken for a
  separator: the value is cut at it, the rest of it has no colon and is dropped, and the
  element's attributes carry the truncated value.
\<close>

theorem style_split_cuts_inside_parentheses:
  "split_style (cleanStyle ''background: url(data:image/svg+xml;utf8,<svg fill=rgb(0,0,0) />)'') =
     [''background: url(data:image/svg+xml'', ''utf8,<svg fill=rgb(0,0,0) />)''] \<and>
   style_entries camelCase ''background: url(data:image/svg+xml;utf8,<svg fill=rgb(0,0,0) />)'' =
     [(camelCase ''background'', ''url(data:image/svg+xml'')] \<and>
   getAttributes camelCase
     [''style'' \<mapsto> ''background: url(data:image/svg+xml;utf8,<svg fill=rgb(0,0,0) />)''] =
     [dq] @ ''style'' @ [dq] @ '':{'' @
       [dq] @ camelCase ''background'' @ [dq] @ '': '' @ [dq] @ ''url(data:image/svg+xml'' @ [dq] @
     ''},''"
  by (simp add: getAttributes_def style_reduce_def maybeRemoveTrailingComma_def butlast_append
      style_entries_def cleanStyle_def style_entry_def List.map_filter_def trim_def
      js_space_def line_terminator_def sanitizeJSON_def replace_all_def dq_def bs_def)

end
